theory Spec2Isabelle
  imports Main "HOL-Library.Word" "HOL-Library.AList"
begin

section \<open>Shared vocabulary: errors, log records, effects\<close>

text \<open>
  A Go \<open>error\<close> value built by \<open>fmt.Errorf\<close>: its message and, when the format used
  \<open>%w\<close>, the error it wraps. A nil \<open>error\<close> is \<open>None\<close> of \<open>error option\<close>.
\<close>

datatype error = Errorf string "error option"

fun Error_msg :: "error \<Rightarrow> string" where
  "Error_msg (Errorf msg cause) = msg"

fun Unwrap :: "error \<Rightarrow> error option" where
  "Unwrap (Errorf msg cause) = cause"

text \<open>
  The logger is an injected collaborator. Its state is the sequence of records handed to
  it: level, message, and the string-valued fields of the call (\<open>timer\<close>, \<open>task\<close>,
  \<open>error\<close>, \<open>name\<close>); numeric fields and stack traces are left out.
\<close>

datatype Level = DebugLevel | InfoLevel | WarnLevel | ErrorLevel | FatalLevel

datatype LogEntry = LogEntry Level string "(string \<times> string) list"

definition log_Info :: "string \<Rightarrow> (string \<times> string) list \<Rightarrow> LogEntry list \<Rightarrow> LogEntry list" where
  "log_Info msg kv lg = lg @ [LogEntry InfoLevel msg kv]"

definition log_Warn :: "string \<Rightarrow> (string \<times> string) list \<Rightarrow> LogEntry list \<Rightarrow> LogEntry list" where
  "log_Warn msg kv lg = lg @ [LogEntry WarnLevel msg kv]"

definition log_Error :: "string \<Rightarrow> (string \<times> string) list \<Rightarrow> LogEntry list \<Rightarrow> LogEntry list" where
  "log_Error msg kv lg = lg @ [LogEntry ErrorLevel msg kv]"

section \<open>Package task: the Task interface\<close>

text \<open>
  A Task is an interface value. Its hooks are arbitrary Go methods: they act on the state
  they close over (the world \<open>'w\<close>) and return an \<open>error\<close>, nil or not. Hooks that
  panic or never return are outside this model.
\<close>

record 'w Task =
  Name :: string
  AfterStart :: "'w \<Rightarrow> error option \<times> 'w"
  BeforeStop :: "'w \<Rightarrow> error option \<times> 'w"

section \<open>Package lifecycle: the Manager\<close>

text \<open>
  What a run of the Manager does to its surroundings, in order: each hook invocation with
  the value it returned. The Manager's own log is a field of the Manager.
\<close>

datatype 'w hook_call =
  AfterStart_call "'w Task" "error option"
| BeforeStop_call "'w Task" "error option"

record 'w Manager =
  tasks :: "'w Task list"
  m_log :: "LogEntry list"

record 'w lc_state =
  mgr :: "'w Manager"
  lc_world :: 'w
  calls :: "'w hook_call list"

definition lifecycle_New :: "LogEntry list \<Rightarrow> 'w Manager" where
  "lifecycle_New lg = \<lparr> tasks = [], m_log = lg \<rparr>"

definition Register :: "'w Task \<Rightarrow> 'w Manager \<Rightarrow> 'w Manager" where
  "Register t m =
     m\<lparr> tasks := tasks m @ [t],
        m_log := log_Info ''Task registered'' [(''task'', Name t)] (m_log m) \<rparr>"

definition m_Info :: "string \<Rightarrow> (string \<times> string) list \<Rightarrow> 'w lc_state \<Rightarrow> 'w lc_state" where
  "m_Info msg kv st = st\<lparr> mgr := (mgr st)\<lparr> m_log := log_Info msg kv (m_log (mgr st)) \<rparr> \<rparr>"

definition m_Error :: "string \<Rightarrow> (string \<times> string) list \<Rightarrow> 'w lc_state \<Rightarrow> 'w lc_state" where
  "m_Error msg kv st = st\<lparr> mgr := (mgr st)\<lparr> m_log := log_Error msg kv (m_log (mgr st)) \<rparr> \<rparr>"

text \<open>\<open>t.AfterStart(ctx)\<close> and \<open>t.BeforeStop(ctx)\<close>: run the hook on the world, note the call.\<close>

definition call_AfterStart :: "'w Task \<Rightarrow> 'w lc_state \<Rightarrow> error option \<times> 'w lc_state" where
  "call_AfterStart t st =
     (case AfterStart t (lc_world st) of
        (err, w') \<Rightarrow> (err, st\<lparr> lc_world := w', calls := calls st @ [AfterStart_call t err] \<rparr>))"

definition call_BeforeStop :: "'w Task \<Rightarrow> 'w lc_state \<Rightarrow> error option \<times> 'w lc_state" where
  "call_BeforeStop t st =
     (case BeforeStop t (lc_world st) of
        (err, w') \<Rightarrow> (err, st\<lparr> lc_world := w', calls := calls st @ [BeforeStop_call t err] \<rparr>))"

text \<open>
  \<open>fmt.Errorf("failed to start task %s: %w", t.Name(), err)\<close>.
\<close>

definition start_error :: "string \<Rightarrow> error \<Rightarrow> error" where
  "start_error nm err =
     Errorf (''failed to start task '' @ nm @ '': '' @ Error_msg err) (Some err)"

text \<open>
  \<open>StartAll\<close>: \<open>for _, t := range tasks\<close> over the snapshot of the registry, returning
  at the first hook that fails.
\<close>

fun StartAll_loop :: "'w Task list \<Rightarrow> 'w lc_state \<Rightarrow> error option \<times> 'w lc_state" where
  "StartAll_loop [] st = (None, st)"
| "StartAll_loop (t # ts) st =
     (case call_AfterStart t (m_Info ''Starting task'' [(''task'', Name t)] st) of
        (Some err, st') \<Rightarrow> (Some (start_error (Name t) err), st')
      | (None, st') \<Rightarrow> StartAll_loop ts st')"

definition StartAll :: "'w lc_state \<Rightarrow> error option \<times> 'w lc_state" where
  "StartAll st = StartAll_loop (tasks (mgr st)) st"

text \<open>
  \<open>StopAll\<close>: \<open>for i := len(tasks) - 1; i >= 0; i--\<close> over the snapshot. The counter
  \<open>n\<close> of the model is \<open>i + 1\<close>, so that \<open>n = 0\<close> is the exit \<open>i = -1\<close>; it starts
  at the snapshot's length, so the index is always in range. A hook's failure is logged
  and the loop goes on; the function returns nil.
\<close>

fun StopAll_loop :: "'w Task list \<Rightarrow> nat \<Rightarrow> 'w lc_state \<Rightarrow> 'w lc_state" where
  "StopAll_loop snapshot 0 st = st"
| "StopAll_loop snapshot (Suc i) st =
     (let t = snapshot ! i in
      case call_BeforeStop t (m_Info ''Stopping task'' [(''task'', Name t)] st) of
        (Some err, st') \<Rightarrow>
          StopAll_loop snapshot i
            (m_Error ''Error stopping task'' [(''task'', Name t), (''error'', Error_msg err)] st')
      | (None, st') \<Rightarrow> StopAll_loop snapshot i st')"

definition StopAll :: "'w lc_state \<Rightarrow> error option \<times> 'w lc_state" where
  "StopAll st = (None, StopAll_loop (tasks (mgr st)) (length (tasks (mgr st))) st)"

text \<open>Reading the trace of calls and the log.\<close>

fun started_of :: "'w hook_call \<Rightarrow> ('w Task \<times> error option) list" where
  "started_of (AfterStart_call t r) = [(t, r)]"
| "started_of (BeforeStop_call t r) = []"

fun stopped_of :: "'w hook_call \<Rightarrow> ('w Task \<times> error option) list" where
  "stopped_of (AfterStart_call t r) = []"
| "stopped_of (BeforeStop_call t r) = [(t, r)]"

definition start_calls :: "'w hook_call list \<Rightarrow> ('w Task \<times> error option) list" where
  "start_calls cs = concat (map started_of cs)"

definition stop_calls :: "'w hook_call list \<Rightarrow> ('w Task \<times> error option) list" where
  "stop_calls cs = concat (map stopped_of cs)"

section \<open>Package scheduler\<close>

text \<open>
  The metrics server is a collaborator the Scheduler holds by pointer, possibly nil. As
  the Scheduler sees it, its state is the sequence of calls made on it. (The server
  itself counts a call only when it was created enabled.)
\<close>

datatype metric_call =
  RecordTimerRun string
| RecordTimerPanic string
| IncActiveTimers
| DecActiveTimers

text \<open>
  A handler is \<open>func(ctx context.Context)\<close>: it has no result, acts on the state it
  closes over (the world \<open>'w\<close>, which includes what it can see of its context), and
  either returns or panics. Handlers that never
  return are outside this model. Go 1.21 and later turn \<open>panic(nil)\<close> into a non-nil
  runtime error, so every panic reaches \<open>recover\<close> as a non-nil value.
\<close>

datatype 'w outcome = Returns 'w | Panics 'w

type_synonym 'w Handler = "'w \<Rightarrow> 'w outcome"

text \<open>The state a run of a handler leaves behind, whether it returned or panicked.\<close>

fun outcome_world :: "'w outcome \<Rightarrow> 'w" where
  "outcome_world (Returns w) = w"
| "outcome_world (Panics w) = w"

text \<open>
  \<open>panicCount\<close> is an \<open>int32\<close> changed by \<open>atomic.AddInt32\<close>, which wraps around;
  \<open>maxRestarts\<close> and \<open>backoffSeconds\<close> are Go \<open>int\<close>s that are only compared here.
\<close>

record 'w Timer =
  name :: string
  interval :: int
  handler :: "'w Handler"
  panicCount :: "32 word"
  maxRestarts :: int
  backoffSeconds :: int
  running :: "32 word"

text \<open>What one run of a timer's handler does to the world.\<close>

definition handler_step :: "'w Timer \<Rightarrow> 'w \<Rightarrow> 'w" where
  "handler_step t w = outcome_world (handler t w)"

datatype Context = Background | WithCancel Context | WithTimeout Context int

text \<open>
  The registry is a Go map from names to timer objects; the association list keeps one
  entry per name, and its order stands for the order in which \<open>range\<close> happens to visit
  the map. \<open>wg\<close> is the WaitGroup's counter; \<open>ctx\<close> is nil (\<open>None\<close>) until Start sets
  it; \<open>cancel\<close> tells whether the cancel function is non-nil.
\<close>

record 'w Scheduler =
  timers :: "(string \<times> 'w Timer) list"
  log :: "LogEntry list"
  metrics :: "metric_call list option"
  wg :: int
  ctx :: "Context option"
  cancel :: bool
  s_maxRestarts :: int
  s_backoffSeconds :: int
  activeTimers :: "32 word"

text \<open>
  What the Scheduler does to the runtime, in order: invoking a timer's handler, sleeping
  for the backoff, starting a goroutine for \<open>runTimer\<close>, calling the cancel function.
\<close>

datatype effect = Invoke string | Sleep int | Go_runTimer string | Cancel

record 'w sys =
  sched :: "'w Scheduler"
  world :: 'w
  effects :: "effect list"

text \<open>A call either returns or is left by a panic that unwinds the stack.\<close>

datatype 'a flow = Normal 'a | Panicking 'a

definition scheduler_New ::
  "LogEntry list \<Rightarrow> metric_call list option \<Rightarrow> int \<Rightarrow> int \<Rightarrow> 'w Scheduler" where
  "scheduler_New lg ms mr bo =
     \<lparr> timers = [], log = lg, metrics = ms, wg = 0, ctx = None, cancel = False,
       s_maxRestarts = mr, s_backoffSeconds = bo, activeTimers = 0 \<rparr>"

definition s_Info :: "string \<Rightarrow> (string \<times> string) list \<Rightarrow> 'w sys \<Rightarrow> 'w sys" where
  "s_Info msg kv st = st\<lparr> sched := (sched st)\<lparr> log := log_Info msg kv (log (sched st)) \<rparr> \<rparr>"

definition s_Warn :: "string \<Rightarrow> (string \<times> string) list \<Rightarrow> 'w sys \<Rightarrow> 'w sys" where
  "s_Warn msg kv st = st\<lparr> sched := (sched st)\<lparr> log := log_Warn msg kv (log (sched st)) \<rparr> \<rparr>"

definition s_Error :: "string \<Rightarrow> (string \<times> string) list \<Rightarrow> 'w sys \<Rightarrow> 'w sys" where
  "s_Error msg kv st = st\<lparr> sched := (sched st)\<lparr> log := log_Error msg kv (log (sched st)) \<rparr> \<rparr>"

text \<open>\<open>if s.metrics != nil { s.metrics.X(...) }\<close>\<close>

definition report :: "metric_call \<Rightarrow> 'w sys \<Rightarrow> 'w sys" where
  "report c st =
     (case metrics (sched st) of
        None \<Rightarrow> st
      | Some cs \<Rightarrow> st\<lparr> sched := (sched st)\<lparr> metrics := Some (cs @ [c]) \<rparr> \<rparr>)"

definition perform :: "effect \<Rightarrow> 'w sys \<Rightarrow> 'w sys" where
  "perform e st = st\<lparr> effects := effects st @ [e] \<rparr>"

definition AddTimer ::
  "string \<Rightarrow> int \<Rightarrow> 'w Handler \<Rightarrow> 'w Scheduler \<Rightarrow> error option \<times> 'w Scheduler" where
  "AddTimer nm iv h s =
     (if map_of (timers s) nm \<noteq> None
      then (Some (Errorf (''timer '' @ nm @ '' already exists'') None), s)
      else
        let timer = \<lparr> name = nm, interval = iv, handler = h, panicCount = 0,
                      maxRestarts = s_maxRestarts s, backoffSeconds = s_backoffSeconds s,
                      running = 0 \<rparr>
        in (None, s\<lparr> timers := timers s @ [(nm, timer)],
                     log := log_Info ''Timer added'' [(''name'', nm)] (log s) \<rparr>))"

definition GetTimerCount :: "'w Scheduler \<Rightarrow> int" where
  "GetTimerCount s = int (length (timers s))"

definition GetActiveTimerCount :: "'w Scheduler \<Rightarrow> 32 word" where
  "GetActiveTimerCount s = activeTimers s"

text \<open>The body of \<open>for name, timer := range s.timers\<close> in Start.\<close>

definition spawn :: "string \<Rightarrow> 'w sys \<Rightarrow> 'w sys" where
  "spawn nm st =
     perform (Go_runTimer nm)
       (report IncActiveTimers
          (st\<lparr> sched := (sched st)\<lparr> wg := wg (sched st) + 1,
                                     activeTimers := activeTimers (sched st) + 1 \<rparr> \<rparr>))"

definition Start :: "Context \<Rightarrow> 'w sys \<Rightarrow> error option \<times> 'w sys" where
  "Start c st =
     (if ctx (sched st) \<noteq> None
      then (Some (Errorf ''scheduler already running'' None), st)
      else
        let st1 = st\<lparr> sched := (sched st)\<lparr> ctx := Some (WithCancel c), cancel := True \<rparr> \<rparr>
        in if length (timers (sched st1)) = 0
           then (None, s_Info ''No timers configured, scheduler running idle'' [] st1)
           else (None, s_Info ''Scheduler started'' []
                         (fold spawn (map fst (timers (sched st1))) st1)))"

text \<open>
  \<open>executeTimerWithRecovery\<close>. The timer is passed by pointer: the model takes the timer
  object and gives it back. \<open>protected_body\<close> is the body of the inner function literal,
  \<open>deferred_recover\<close> its deferred function, run when the body has returned or panicked.
\<close>

definition protected_body :: "string \<Rightarrow> 'w Timer \<Rightarrow> 'w sys \<Rightarrow> 'w sys flow" where
  "protected_body nm t st =
     (let st1 = perform (Invoke nm) (report (RecordTimerRun nm) st)
      in case handler t (world st1) of
           Returns w' \<Rightarrow> Normal (st1\<lparr> world := w' \<rparr>)
         | Panics w' \<Rightarrow> Panicking (st1\<lparr> world := w' \<rparr>))"

definition deferred_recover ::
  "string \<Rightarrow> 'w Timer \<Rightarrow> 'w sys flow \<Rightarrow> ('w Timer \<times> 'w sys) flow" where
  "deferred_recover nm t r =
     (case r of
        Normal st \<Rightarrow> Normal (t, st)
      | Panicking st \<Rightarrow>
          let t1 = t\<lparr> panicCount := panicCount t + 1 \<rparr>;
              st1 = s_Error ''Timer panic recovered'' [(''timer'', nm)] st;
              st2 = report (RecordTimerPanic nm) st1;
              st3 = (if backoffSeconds t1 > 0 then perform (Sleep (backoffSeconds t1)) st2
                     else st2)
          in Normal (t1, st3))"

definition executeTimerWithRecovery ::
  "string \<Rightarrow> 'w Timer \<Rightarrow> 'w sys \<Rightarrow> ('w Timer \<times> 'w sys) flow" where
  "executeTimerWithRecovery nm t st =
     (if maxRestarts t > 0 \<and> sint (panicCount t) > maxRestarts t
      then Normal (t, s_Error ''Timer exceeded max panic restarts, disabling''
                        [(''timer'', nm)] st)
      else deferred_recover nm t (protected_body nm t st))"

text \<open>
  \<open>runTimer\<close> is the goroutine of one timer. Its \<open>select\<close> waits for the run context or
  the ticker; the list of signals is what it receives, in order, and the empty list
  leaves it waiting. The timer pointer it holds is the registry's object for \<open>nm\<close>, so
  a tick reads that entry and writes it back. Start runs \<open>runTimer\<close> for registered names
  only; for a name without an entry there is no goroutine, and a tick does nothing.
\<close>

datatype signal = Tick | Done

definition tick :: "string \<Rightarrow> 'w sys \<Rightarrow> 'w sys flow" where
  "tick nm st =
     (case map_of (timers (sched st)) nm of
        None \<Rightarrow> Normal st
      | Some t \<Rightarrow>
          (case executeTimerWithRecovery nm t st of
             Normal (t', st') \<Rightarrow>
               Normal (st'\<lparr> sched := (sched st')\<lparr> timers := AList.update nm t' (timers (sched st')) \<rparr> \<rparr>)
           | Panicking (t', st') \<Rightarrow>
               Panicking (st'\<lparr> sched := (sched st')\<lparr> timers := AList.update nm t' (timers (sched st')) \<rparr> \<rparr>)))"

text \<open>The deferred calls of \<open>runTimer\<close>, last deferred first.\<close>

definition runTimer_deferred :: "'w sys \<Rightarrow> 'w sys" where
  "runTimer_deferred st =
     (let st1 = report DecActiveTimers
                  (st\<lparr> sched := (sched st)\<lparr> activeTimers := activeTimers (sched st) - 1 \<rparr> \<rparr>)
      in st1\<lparr> sched := (sched st1)\<lparr> wg := wg (sched st1) - 1 \<rparr> \<rparr>)"

fun runTimer_loop :: "string \<Rightarrow> signal list \<Rightarrow> 'w sys \<Rightarrow> 'w sys flow" where
  "runTimer_loop nm [] st = Normal st"
| "runTimer_loop nm (Done # sigs) st =
     Normal (runTimer_deferred (s_Info ''Timer stopped'' [(''timer'', nm)] st))"
| "runTimer_loop nm (Tick # sigs) st =
     (case tick nm st of
        Normal st' \<Rightarrow> runTimer_loop nm sigs st'
      | Panicking st' \<Rightarrow> Panicking (runTimer_deferred st'))"

text \<open>
  \<open>runTimer\<close> itself: its two deferred calls are registered first, then it logs and
  creates the ticker. \<open>time.NewTicker\<close> panics for an interval that is not positive;
  nothing recovers that panic, so it leaves the goroutine after the deferred calls.
\<close>

definition runTimer :: "string \<Rightarrow> 'w Timer \<Rightarrow> signal list \<Rightarrow> 'w sys \<Rightarrow> 'w sys flow" where
  "runTimer nm timer sigs st =
     (let st1 = s_Info ''Timer started'' [(''timer'', nm)] st
      in if interval timer \<le> 0 then Panicking (runTimer_deferred st1)
         else runTimer_loop nm sigs st1)"

text \<open>
  \<open>Stop\<close> cancels the run context and then waits in a \<open>select\<close> for the WaitGroup to
  drain or for the shutdown context to be done. Which of the two happens first, or that
  neither ever happens, is decided outside the Scheduler; it is the first argument.
  A Stop that waits forever has no result (\<open>None\<close>).
\<close>

datatype select_outcome = Drained | Expired | Blocked

definition Stop :: "select_outcome \<Rightarrow> 'w sys \<Rightarrow> (error option \<times> 'w sys) option" where
  "Stop sel st =
     (let st1 = (if cancel (sched st) then perform Cancel st else st);
          st2 = s_Info ''Stopping scheduler...'' [] st1
      in case sel of
           Drained \<Rightarrow> Some (None, s_Info ''All timers stopped gracefully'' [] st2)
         | Expired \<Rightarrow> Some (None, s_Warn ''Timeout waiting for timers to stop'' [] st2)
         | Blocked \<Rightarrow> None)"

text \<open>Counting what a run did.\<close>

definition invocations :: "string \<Rightarrow> effect list \<Rightarrow> nat" where
  "invocations nm es = count_list es (Invoke nm)"

definition reported :: "metric_call \<Rightarrow> 'w sys \<Rightarrow> nat" where
  "reported c st = (case metrics (sched st) of None \<Rightarrow> 0 | Some cs \<Rightarrow> count_list cs c)"

text \<open>
  A use of the Scheduler from outside is a sequence of calls of its methods, interleaved
  with the signals its timer goroutines receive. A call that never returns, or a panic
  that leaves a goroutine, ends the sequence without a state.
\<close>

datatype 'w op =
  Op_AddTimer string int "'w Handler"
| Op_Start Context
| Op_Stop select_outcome
| Op_signal string signal

fun apply_op :: "'w op \<Rightarrow> 'w sys \<Rightarrow> 'w sys option" where
  "apply_op (Op_AddTimer nm iv h) st = Some (st\<lparr> sched := snd (AddTimer nm iv h (sched st)) \<rparr>)"
| "apply_op (Op_Start c) st = Some (snd (Start c st))"
| "apply_op (Op_Stop sel) st = map_option snd (Stop sel st)"
| "apply_op (Op_signal nm sg) st =
     (case runTimer_loop nm [sg] st of Normal st' \<Rightarrow> Some st' | Panicking st' \<Rightarrow> None)"

fun apply_ops :: "'w op list \<Rightarrow> 'w sys \<Rightarrow> 'w sys option" where
  "apply_ops [] st = Some st"
| "apply_ops (x # xs) st =
     (case apply_op x st of None \<Rightarrow> None | Some st' \<Rightarrow> apply_ops xs st')"

text \<open>The state a call leaves behind, however the call ended.\<close>

fun state_of :: "'a flow \<Rightarrow> 'a" where
  "state_of (Normal x) = x"
| "state_of (Panicking x) = x"

definition after_ops :: "'w op list \<Rightarrow> 'w sys \<Rightarrow> 'w sys" where
  "after_ops xs st = (case apply_ops xs st of None \<Rightarrow> st | Some st' \<Rightarrow> st')"

section \<open>Reading logs and call traces\<close>

fun is_error_entry :: "LogEntry \<Rightarrow> bool" where
  "is_error_entry (LogEntry lv msg kv) = (lv = ErrorLevel)"

definition error_entries :: "LogEntry list \<Rightarrow> LogEntry list" where
  "error_entries lg = filter is_error_entry lg"

text \<open>The record \<open>StopAll\<close> writes for a stop call, by what the call returned.\<close>

fun stop_failure_entry :: "'w Task \<times> error option \<Rightarrow> LogEntry list" where
  "stop_failure_entry (t, None) = []"
| "stop_failure_entry (t, Some err) =
     [LogEntry ErrorLevel ''Error stopping task'' [(''task'', Name t), (''error'', Error_msg err)]]"

text \<open>
  Running one hook of each task of a list in turn, each on the world the one before it
  left: the values the hooks return, in order, and the world after the last.
\<close>

fun hooks_in_turn ::
  "('w Task \<Rightarrow> 'w \<Rightarrow> error option \<times> 'w) \<Rightarrow> 'w Task list \<Rightarrow> 'w \<Rightarrow> error option list \<times> 'w" where
  "hooks_in_turn hook [] w = ([], w)"
| "hooks_in_turn hook (t # ts) w =
     (case hook t w of
        (r, w') \<Rightarrow> (case hooks_in_turn hook ts w' of (rs, w'') \<Rightarrow> (r # rs, w'')))"

definition stops_of :: "'w Task \<Rightarrow> 'w hook_call list \<Rightarrow> nat" where
  "stops_of t cs = count_list (map fst (stop_calls cs)) t"

section \<open>Scenarios of the test suites\<close>

text \<open>
  The lifecycle tests' \<open>mockTask\<close>: each hook notes that it ran and returns the error
  the task was built with. The world is the list of notes.
\<close>

definition mockTask :: "string \<Rightarrow> error option \<Rightarrow> error option \<Rightarrow> (string list) Task" where
  "mockTask nm startError stopError =
     \<lparr> Name = nm,
       AfterStart = (\<lambda>w. (startError, w @ [''started '' @ nm])),
       BeforeStop = (\<lambda>w. (stopError, w @ [''stopped '' @ nm])) \<rparr>"

definition fresh_manager :: "'w Task list \<Rightarrow> 'w \<Rightarrow> 'w lc_state" where
  "fresh_manager ts w =
     \<lparr> mgr = foldl (\<lambda>m t. Register t m) (lifecycle_New []) ts, lc_world = w, calls = [] \<rparr>"

text \<open>\<open>TestStartAll_Error\<close>: the second of three tasks fails to start.\<close>

definition start_error_scenario :: "(string list) lc_state" where
  "start_error_scenario =
     fresh_manager [mockTask ''task1'' None None,
                    mockTask ''task2'' (Some (Errorf ''start failed'' None)) None,
                    mockTask ''task3'' None None] []"

text \<open>\<open>TestStopAll_ContinuesOnError\<close>: the second of three tasks fails to stop.\<close>

definition stop_error_scenario :: "(string list) lc_state" where
  "stop_error_scenario =
     fresh_manager [mockTask ''task1'' None None,
                    mockTask ''task2'' None (Some (Errorf ''stop failed'' None)),
                    mockTask ''task3'' None None] []"

text \<open>A registry in which the first task is registered a second time, after a task that fails to start.\<close>

definition twice_registered_scenario :: "(string list) lc_state" where
  "twice_registered_scenario =
     fresh_manager [mockTask ''task1'' None None,
                    mockTask ''task2'' (Some (Errorf ''start failed'' None)) None,
                    mockTask ''task3'' None None,
                    mockTask ''task1'' None None] []"

text \<open>
  The scheduler tests' handlers bump a counter and then panic, or only bump it. The world
  is the counter.
\<close>

definition panic_handler :: "nat Handler" where
  "panic_handler w = Panics (Suc w)"

definition count_handler :: "nat Handler" where
  "count_handler w = Returns (Suc w)"

definition test_sys :: "metric_call list option \<Rightarrow> int \<Rightarrow> int \<Rightarrow> nat sys" where
  "test_sys ms mr bo = \<lparr> sched = scheduler_New [] ms mr bo, world = 0, effects = [] \<rparr>"

definition add_timer :: "string \<Rightarrow> int \<Rightarrow> 'w Handler \<Rightarrow> 'w sys \<Rightarrow> 'w sys" where
  "add_timer nm iv h st = st\<lparr> sched := snd (AddTimer nm iv h (sched st)) \<rparr>"

text \<open>
  \<open>TestPanicRecovery\<close> and \<open>TestMaxRestartsExceeded\<close>, with a second, well-behaved
  timer beside the panicking one; the arguments are the metrics collaborator and
  \<open>maxRestarts\<close>.
\<close>

definition panic_scenario :: "metric_call list option \<Rightarrow> int \<Rightarrow> nat sys" where
  "panic_scenario ms mr =
     add_timer ''exec-timer'' 50000000 count_handler
       (add_timer ''panic-timer'' 50000000 panic_handler (test_sys ms mr 0))"

text \<open>The panicking timer of that scenario once it has used up two restarts.\<close>

definition exhausted_scenario :: "nat sys" where
  "exhausted_scenario =
     \<lparr> sched = (scheduler_New [] (Some []) 2 0)
         \<lparr> timers := [(''panic-timer'',
              \<lparr> name = ''panic-timer'', interval = 50000000, handler = panic_handler,
                panicCount = 3, maxRestarts = 2, backoffSeconds = 0, running = 0 \<rparr>)] \<rparr>,
       world = 3, effects = [] \<rparr>"

text \<open>The timer object \<open>AddTimer\<close> creates for the panicking timer of that scenario.\<close>

definition panic_timer :: "int \<Rightarrow> nat Timer" where
  "panic_timer mr =
     \<lparr> name = ''panic-timer'', interval = 50000000, handler = panic_handler,
       panicCount = 0, maxRestarts = mr, backoffSeconds = 0, running = 0 \<rparr>"

text \<open>\<open>TestStart_AlreadyRunning\<close>: the scheduler after its first Start.\<close>

definition running_scenario :: "nat sys" where
  "running_scenario = snd (Start Background (panic_scenario (Some []) 3))"

text \<open>\<open>TestNoTimers\<close>: a scheduler without timers.\<close>

definition idle_scenario :: "nat sys" where
  "idle_scenario = test_sys (Some []) 3 0"

text \<open>\<open>TestAddTimer_DuplicateName\<close>: the scheduler after the first AddTimer.\<close>

definition duplicate_scenario :: "nat Scheduler" where
  "duplicate_scenario =
     snd (AddTimer ''duplicate'' 1000000000 count_handler (scheduler_New [] (Some []) 3 0))"

section \<open>Lifecycle Manager: facts about the two sweeps\<close>

lemma m_Info_simps [simp]:
  "calls (m_Info msg kv st) = calls st"
  "lc_world (m_Info msg kv st) = lc_world st"
  "tasks (mgr (m_Info msg kv st)) = tasks (mgr st)"
  by (simp_all add: m_Info_def)

lemma m_Error_simps [simp]:
  "calls (m_Error msg kv st) = calls st"
  "lc_world (m_Error msg kv st) = lc_world st"
  "tasks (mgr (m_Error msg kv st)) = tasks (mgr st)"
  by (simp_all add: m_Error_def)

lemma error_entries_append [simp]: "error_entries (a @ b) = error_entries a @ error_entries b"
  by (simp add: error_entries_def)

lemma m_Info_errors [simp]:
  "error_entries (m_log (mgr (m_Info msg kv st))) = error_entries (m_log (mgr st))"
  by (simp add: m_Info_def log_Info_def error_entries_def)

lemma m_Error_errors [simp]:
  "error_entries (m_log (mgr (m_Error msg kv st))) =
     error_entries (m_log (mgr st)) @ [LogEntry ErrorLevel msg kv]"
  by (simp add: m_Error_def log_Error_def error_entries_def)

lemma call_AfterStart_calls:
  "call_AfterStart t st = (r, st') \<Longrightarrow> calls st' = calls st @ [AfterStart_call t r]"
  by (auto simp: call_AfterStart_def split: prod.splits)

lemma call_AfterStart_mgr: "call_AfterStart t st = (r, st') \<Longrightarrow> tasks (mgr st') = tasks (mgr st)"
  by (auto simp: call_AfterStart_def split: prod.splits)

lemma call_BeforeStop_calls:
  "call_BeforeStop t st = (r, st') \<Longrightarrow> calls st' = calls st @ [BeforeStop_call t r]"
  by (auto simp: call_BeforeStop_def split: prod.splits)

lemma call_BeforeStop_mgr: "call_BeforeStop t st = (r, st') \<Longrightarrow> mgr st' = mgr st"
  by (auto simp: call_BeforeStop_def split: prod.splits)

lemmas lc_defs = fresh_manager_def mockTask_def lifecycle_New_def Register_def StartAll_def
  StopAll_def call_AfterStart_def call_BeforeStop_def m_Info_def m_Error_def log_Info_def
  log_Error_def start_error_def Let_def

lemma StartAll_loop_calls:
  "StartAll_loop ts st = (res, st') \<Longrightarrow>
     (res = None \<and> calls st' = calls st @ map (\<lambda>t. AfterStart_call t None) ts) \<or>
     (\<exists>k cause. k < length ts \<and> res = Some (start_error (Name (ts ! k)) cause) \<and>
        calls st' = calls st @ map (\<lambda>t. AfterStart_call t None) (take k ts)
                      @ [AfterStart_call (ts ! k) (Some cause)])"
proof (induction ts arbitrary: st)
  case Nil
  then show ?case by simp
next
  case (Cons t ts)
  obtain r st1 where c: "call_AfterStart t (m_Info ''Starting task'' [(''task'', Name t)] st) = (r, st1)"
    by (cases "call_AfterStart t (m_Info ''Starting task'' [(''task'', Name t)] st)")
  have cs: "calls st1 = calls st @ [AfterStart_call t r]"
    using call_AfterStart_calls[OF c] by simp
  show ?case
  proof (cases r)
    case None
    with Cons.prems c have rest: "StartAll_loop ts st1 = (res, st')" by simp
    from Cons.IH[OF rest] show ?thesis
    proof
      assume "res = None \<and> calls st' = calls st1 @ map (\<lambda>t. AfterStart_call t None) ts"
      then show ?thesis using cs None by simp
    next
      assume "\<exists>k cause. k < length ts \<and> res = Some (start_error (Name (ts ! k)) cause) \<and>
        calls st' = calls st1 @ map (\<lambda>t. AfterStart_call t None) (take k ts)
                      @ [AfterStart_call (ts ! k) (Some cause)]"
      then obtain k cause where k: "k < length ts" "res = Some (start_error (Name (ts ! k)) cause)"
        "calls st' = calls st1 @ map (\<lambda>t. AfterStart_call t None) (take k ts)
                      @ [AfterStart_call (ts ! k) (Some cause)]" by blast
      have "Suc k < length (t # ts) \<and> res = Some (start_error (Name ((t # ts) ! Suc k)) cause) \<and>
        calls st' = calls st @ map (\<lambda>t. AfterStart_call t None) (take (Suc k) (t # ts))
                      @ [AfterStart_call ((t # ts) ! Suc k) (Some cause)]"
        using k cs None by simp
      then show ?thesis by blast
    qed
  next
    case (Some e)
    with Cons.prems c have "res = Some (start_error (Name t) e)" "st' = st1" by simp_all
    then have "0 < length (t # ts) \<and> res = Some (start_error (Name ((t # ts) ! 0)) e) \<and>
        calls st' = calls st @ map (\<lambda>t. AfterStart_call t None) (take 0 (t # ts))
                      @ [AfterStart_call ((t # ts) ! 0) (Some e)]"
      using cs Some by simp
    then show ?thesis by blast
  qed
qed

lemma StartAll_loop_tasks:
  "StartAll_loop ts st = (res, st') \<Longrightarrow> tasks (mgr st') = tasks (mgr st)"
proof (induction ts arbitrary: st)
  case Nil
  then show ?case by simp
next
  case (Cons t ts)
  obtain r st1 where c: "call_AfterStart t (m_Info ''Starting task'' [(''task'', Name t)] st) = (r, st1)"
    by (cases "call_AfterStart t (m_Info ''Starting task'' [(''task'', Name t)] st)")
  have m: "tasks (mgr st1) = tasks (mgr st)" using call_AfterStart_mgr[OF c] by simp
  show ?case
  proof (cases r)
    case None
    with Cons.prems c have "StartAll_loop ts st1 = (res, st')" by simp
    from Cons.IH[OF this] m show ?thesis by simp
  next
    case (Some e)
    with Cons.prems c have "st' = st1" by simp
    with m show ?thesis by simp
  qed
qed

lemma StartAll_loop_stop_calls:
  "StartAll_loop ts st = (res, st') \<Longrightarrow> stop_calls (calls st') = stop_calls (calls st)"
  using StartAll_loop_calls[of ts st res st']
  by (auto simp: stop_calls_def comp_def)

lemma StopAll_loop_sweep:
  "n \<le> length snap \<Longrightarrow>
   \<exists>rs. length rs = n \<and>
     calls (StopAll_loop snap n st) =
       calls st @ map (\<lambda>(t, r). BeforeStop_call t r) (zip (rev (take n snap)) rs) \<and>
     error_entries (m_log (mgr (StopAll_loop snap n st))) =
       error_entries (m_log (mgr st)) @ concat (map stop_failure_entry (zip (rev (take n snap)) rs))"
proof (induction n arbitrary: st)
  case 0
  then show ?case by simp
next
  case (Suc i)
  let ?t = "snap ! i"
  obtain r st1 where c: "call_BeforeStop ?t (m_Info ''Stopping task'' [(''task'', Name ?t)] st) = (r, st1)"
    by (cases "call_BeforeStop ?t (m_Info ''Stopping task'' [(''task'', Name ?t)] st)")
  have cs: "calls st1 = calls st @ [BeforeStop_call ?t r]"
    using call_BeforeStop_calls[OF c] by simp
  have lg: "error_entries (m_log (mgr st1)) = error_entries (m_log (mgr st))"
    using call_BeforeStop_mgr[OF c] by simp
  define st2 where "st2 = (case r of None \<Rightarrow> st1
     | Some err \<Rightarrow> m_Error ''Error stopping task'' [(''task'', Name ?t), (''error'', Error_msg err)] st1)"
  have step: "StopAll_loop snap (Suc i) st = StopAll_loop snap i st2"
    using c by (simp add: st2_def split: option.splits)
  have cs2: "calls st2 = calls st @ [BeforeStop_call ?t r]"
    using cs by (simp add: st2_def split: option.splits)
  have lg2: "error_entries (m_log (mgr st2)) = error_entries (m_log (mgr st)) @ stop_failure_entry (?t, r)"
    using lg by (simp add: st2_def split: option.splits)
  from Suc.prems have i: "i \<le> length snap" "i < length snap" by simp_all
  from Suc.IH[OF i(1), of st2] obtain rs where rs: "length rs = i"
    "calls (StopAll_loop snap i st2) =
       calls st2 @ map (\<lambda>(t, r). BeforeStop_call t r) (zip (rev (take i snap)) rs)"
    "error_entries (m_log (mgr (StopAll_loop snap i st2))) =
       error_entries (m_log (mgr st2)) @ concat (map stop_failure_entry (zip (rev (take i snap)) rs))"
    by blast
  have tk: "rev (take (Suc i) snap) = ?t # rev (take i snap)"
    using i(2) by (simp add: take_Suc_conv_app_nth)
  have "length (r # rs) = Suc i \<and> calls (StopAll_loop snap (Suc i) st) =
      calls st @ map (\<lambda>(t, r). BeforeStop_call t r) (zip (rev (take (Suc i) snap)) (r # rs)) \<and>
     error_entries (m_log (mgr (StopAll_loop snap (Suc i) st))) =
       error_entries (m_log (mgr st)) @
         concat (map stop_failure_entry (zip (rev (take (Suc i) snap)) (r # rs)))"
    using rs cs2 lg2 step tk by simp
  then show ?case by blast
qed

lemma stop_targets_zip:
  "length xs = length rs \<Longrightarrow>
   map fst (stop_calls (map (\<lambda>(t, r). BeforeStop_call t r) (zip xs rs))) = xs"
  by (induction xs rs rule: list_induct2) (simp_all add: stop_calls_def)

lemma stop_calls_append: "stop_calls (a @ b) = stop_calls a @ stop_calls b"
  by (simp add: stop_calls_def)

lemma StopAll_loop_targets:
  assumes n: "n \<le> length snap"
  shows "map fst (stop_calls (calls (StopAll_loop snap n st))) =
     map fst (stop_calls (calls st)) @ rev (take n snap)"
proof -
  from StopAll_loop_sweep[OF n, of st] obtain rs where rs: "length rs = n"
    "calls (StopAll_loop snap n st) =
       calls st @ map (\<lambda>(t, r). BeforeStop_call t r) (zip (rev (take n snap)) rs)"
    by blast
  have "length (rev (take n snap)) = length rs" using rs(1) n by simp
  from stop_targets_zip[OF this] show ?thesis using rs(2) by (simp add: stop_calls_append)
qed

lemma call_BeforeStop_world:
  "call_BeforeStop t st = (r, st') \<Longrightarrow> BeforeStop t (lc_world st) = (r, lc_world st')"
  by (auto simp: call_BeforeStop_def split: prod.splits)

lemma length_hooks_in_turn: "length (fst (hooks_in_turn hook ts w)) = length ts"
proof (induction ts arbitrary: w)
  case Nil
  then show ?case by simp
next
  case (Cons t ts)
  obtain r w' where h: "hook t w = (r, w')" by (cases "hook t w")
  obtain rs w'' where k: "hooks_in_turn hook ts w' = (rs, w'')"
    by (cases "hooks_in_turn hook ts w'")
  from Cons.IH[of w'] k have "length rs = length ts" by simp
  with h k show ?case by simp
qed

lemma StopAll_loop_run:
  "n \<le> length snap \<Longrightarrow>
   calls (StopAll_loop snap n st) =
     calls st @ map (\<lambda>(t, r). BeforeStop_call t r)
       (zip (rev (take n snap)) (fst (hooks_in_turn BeforeStop (rev (take n snap)) (lc_world st)))) \<and>
   lc_world (StopAll_loop snap n st) =
     snd (hooks_in_turn BeforeStop (rev (take n snap)) (lc_world st)) \<and>
   error_entries (m_log (mgr (StopAll_loop snap n st))) =
     error_entries (m_log (mgr st)) @
       concat (map stop_failure_entry
         (zip (rev (take n snap)) (fst (hooks_in_turn BeforeStop (rev (take n snap)) (lc_world st)))))"
proof (induction n arbitrary: st)
  case 0
  then show ?case by simp
next
  case (Suc i)
  let ?t = "snap ! i"
  obtain r st1 where c: "call_BeforeStop ?t (m_Info ''Stopping task'' [(''task'', Name ?t)] st) = (r, st1)"
    by (cases "call_BeforeStop ?t (m_Info ''Stopping task'' [(''task'', Name ?t)] st)")
  have cs: "calls st1 = calls st @ [BeforeStop_call ?t r]"
    using call_BeforeStop_calls[OF c] by simp
  have hk: "BeforeStop ?t (lc_world st) = (r, lc_world st1)"
    using call_BeforeStop_world[OF c] by simp
  have lg: "error_entries (m_log (mgr st1)) = error_entries (m_log (mgr st))"
    using call_BeforeStop_mgr[OF c] by simp
  define st2 where "st2 = (case r of None \<Rightarrow> st1
     | Some err \<Rightarrow> m_Error ''Error stopping task'' [(''task'', Name ?t), (''error'', Error_msg err)] st1)"
  have step: "StopAll_loop snap (Suc i) st = StopAll_loop snap i st2"
    using c by (simp add: st2_def split: option.splits)
  have cs2: "calls st2 = calls st @ [BeforeStop_call ?t r]"
    using cs by (simp add: st2_def split: option.splits)
  have w2: "lc_world st2 = lc_world st1"
    by (simp add: st2_def split: option.splits)
  have lg2: "error_entries (m_log (mgr st2)) = error_entries (m_log (mgr st)) @ stop_failure_entry (?t, r)"
    using lg by (simp add: st2_def split: option.splits)
  from Suc.prems have i: "i \<le> length snap" "i < length snap" by simp_all
  have tk: "rev (take (Suc i) snap) = ?t # rev (take i snap)"
    using i(2) by (simp add: take_Suc_conv_app_nth)
  obtain rs w' where h: "hooks_in_turn BeforeStop (rev (take i snap)) (lc_world st1) = (rs, w')"
    by (cases "hooks_in_turn BeforeStop (rev (take i snap)) (lc_world st1)")
  have h': "hooks_in_turn BeforeStop (rev (take (Suc i) snap)) (lc_world st) = (r # rs, w')"
    using tk hk h by simp
  from Suc.IH[OF i(1), of st2] w2 h cs2 lg2 step h' tk show ?case by simp
qed

text \<open>
  C3. \<open>StartAll\<close> calls the \<open>AfterStart\<close> hooks one after the other in registration
  order. Either every hook returns nil, and then the calls made are those of the whole
  registry, in order, and the result is nil; or some hook is the first to fail, at a
  position \<open>k\<close>, and then the calls made are those of the first \<open>k\<close> tasks followed by
  the failing one and nothing else: no later task is started and no \<open>BeforeStop\<close> is
  called on an earlier one. The error returned wraps the hook's error and its message
  contains the failing task's name.
\<close>

theorem StartAll_fail_fast:
  assumes "StartAll st = (res, st')"
  shows "(res = None \<and>
          calls st' = calls st @ map (\<lambda>t. AfterStart_call t None) (tasks (mgr st)))
       \<or> (\<exists>k cause e. k < length (tasks (mgr st)) \<and> res = Some e \<and>
            Error_msg e =
              ''failed to start task '' @ Name (tasks (mgr st) ! k) @ '': '' @ Error_msg cause \<and>
            Unwrap e = Some cause \<and>
            calls st' = calls st @ map (\<lambda>t. AfterStart_call t None) (take k (tasks (mgr st)))
                          @ [AfterStart_call (tasks (mgr st) ! k) (Some cause)])"
  using StartAll_loop_calls[of "tasks (mgr st)" st res st'] assms
  unfolding StartAll_def start_error_def by auto

theorem StartAll_fail_fast_witness:
  "fst (StartAll start_error_scenario) =
     Some (Errorf ''failed to start task task2: start failed'' (Some (Errorf ''start failed'' None))) \<and>
   calls (snd (StartAll start_error_scenario)) =
     [AfterStart_call (mockTask ''task1'' None None) None,
      AfterStart_call (mockTask ''task2'' (Some (Errorf ''start failed'' None)) None)
        (Some (Errorf ''start failed'' None))] \<and>
   lc_world (snd (StartAll start_error_scenario)) = [''started task1'', ''started task2'']"
proof -
  have h: "StartAll start_error_scenario =
      (fst (StartAll start_error_scenario), snd (StartAll start_error_scenario))" by simp
  from StartAll_fail_fast[OF h] show ?thesis
    by (simp add: start_error_scenario_def lc_defs)
qed

text \<open>
  C4. \<open>StopAll\<close> returns nil. It runs the \<open>BeforeStop\<close> hook of every entry of the
  registry once, one after the other, in the reverse of registration order: the world it
  leaves is the one obtained by running those hooks in that order, each on the world the
  one before it left, and the calls it makes are those hooks with the values they
  returned, nothing else. A hook's failure does not end the sweep: the error records
  written to the log are those of the failing hooks, one each, in the order of the sweep.
\<close>

theorem StopAll_reverse_sweep:
  "fst (StopAll st) = None \<and>
   lc_world (snd (StopAll st)) =
     snd (hooks_in_turn BeforeStop (rev (tasks (mgr st))) (lc_world st)) \<and>
   length (fst (hooks_in_turn BeforeStop (rev (tasks (mgr st))) (lc_world st))) =
     length (tasks (mgr st)) \<and>
   calls (snd (StopAll st)) =
     calls st @ map (\<lambda>(t, r). BeforeStop_call t r)
       (zip (rev (tasks (mgr st)))
            (fst (hooks_in_turn BeforeStop (rev (tasks (mgr st))) (lc_world st)))) \<and>
   error_entries (m_log (mgr (snd (StopAll st)))) =
     error_entries (m_log (mgr st)) @
       concat (map stop_failure_entry
         (zip (rev (tasks (mgr st)))
              (fst (hooks_in_turn BeforeStop (rev (tasks (mgr st))) (lc_world st)))))"
  using StopAll_loop_run[of "length (tasks (mgr st))" "tasks (mgr st)" st]
  by (simp add: StopAll_def length_hooks_in_turn)

theorem StopAll_reverse_sweep_witness:
  "fst (StopAll stop_error_scenario) = None \<and>
   lc_world stop_error_scenario = [] \<and>
   lc_world (snd (StopAll stop_error_scenario)) =
     [''stopped task3'', ''stopped task2'', ''stopped task1''] \<and>
   calls (snd (StopAll stop_error_scenario)) =
     [BeforeStop_call (mockTask ''task3'' None None) None,
      BeforeStop_call (mockTask ''task2'' None (Some (Errorf ''stop failed'' None)))
        (Some (Errorf ''stop failed'' None)),
      BeforeStop_call (mockTask ''task1'' None None) None] \<and>
   error_entries (m_log (mgr (snd (StopAll stop_error_scenario)))) =
     [LogEntry ErrorLevel ''Error stopping task'' [(''task'', ''task2''), (''error'', ''stop failed'')]]"
  using StopAll_reverse_sweep[of stop_error_scenario]
  by (simp add: stop_error_scenario_def lc_defs error_entries_def numeral_3_eq_3)

text \<open>
  C10. The hooks \<open>StopAll\<close> runs are those of the registry read backwards, whatever
  happened before. In any state, so also when \<open>StartAll\<close> was never called, the stop
  calls it makes are the registry's entries in reverse with the values their hooks
  returned, and the world it leaves is the one those hooks produce in turn. The same
  holds after a \<open>StartAll\<close>, whether it succeeded or returned at a failing task: the
  sweep is over the whole registry as it was before \<open>StartAll\<close>, starting on the world
  \<open>StartAll\<close> left. A task is stopped as many times as it is registered, and
  registering a task twice puts it in the registry twice.
\<close>

theorem StopAll_sweeps_registry:
  "stop_calls (calls (snd (StopAll st))) =
     stop_calls (calls st) @
       zip (rev (tasks (mgr st)))
           (fst (hooks_in_turn BeforeStop (rev (tasks (mgr st))) (lc_world st))) \<and>
   lc_world (snd (StopAll st)) =
     snd (hooks_in_turn BeforeStop (rev (tasks (mgr st))) (lc_world st)) \<and>
   stop_calls (calls (snd (StopAll (snd (StartAll st))))) =
     stop_calls (calls st) @
       zip (rev (tasks (mgr st)))
           (fst (hooks_in_turn BeforeStop (rev (tasks (mgr st))) (lc_world (snd (StartAll st))))) \<and>
   lc_world (snd (StopAll (snd (StartAll st)))) =
     snd (hooks_in_turn BeforeStop (rev (tasks (mgr st))) (lc_world (snd (StartAll st)))) \<and>
   map fst (stop_calls (calls (snd (StopAll st)))) =
     map fst (stop_calls (calls st)) @ rev (tasks (mgr st)) \<and>
   map fst (stop_calls (calls (snd (StopAll (snd (StartAll st)))))) =
     map fst (stop_calls (calls st)) @ rev (tasks (mgr st)) \<and>
   stops_of t (calls (snd (StopAll st))) = stops_of t (calls st) + count_list (tasks (mgr st)) t \<and>
   count_list (tasks (Register t (Register t m))) t = count_list (tasks m) t + 2"
proof -
  have z: "stop_calls (map (\<lambda>(t, r). BeforeStop_call t r) ps) = ps" for ps :: "('a Task \<times> error option) list"
    by (induction ps) (auto simp: stop_calls_def)
  have run: "stop_calls (calls (snd (StopAll st))) =
       stop_calls (calls st) @
         zip (rev (tasks (mgr st)))
             (fst (hooks_in_turn BeforeStop (rev (tasks (mgr st))) (lc_world st))) \<and>
     lc_world (snd (StopAll st)) =
       snd (hooks_in_turn BeforeStop (rev (tasks (mgr st))) (lc_world st))" for st :: "'a lc_state"
    using StopAll_loop_run[of "length (tasks (mgr st))" "tasks (mgr st)" st]
    by (simp add: StopAll_def stop_calls_append z)
  have a: "\<And>st::'a lc_state. map fst (stop_calls (calls (snd (StopAll st)))) =
     map fst (stop_calls (calls st)) @ rev (tasks (mgr st))"
    using StopAll_loop_targets[of "length (tasks (mgr st))" "tasks (mgr st)" for st]
    by (simp add: StopAll_def)
  obtain res st1 where s: "StartAll st = (res, st1)" by (cases "StartAll st")
  then have l: "StartAll_loop (tasks (mgr st)) st = (res, st1)" by (simp add: StartAll_def)
  have r2: "stop_calls (calls (snd (StopAll (snd (StartAll st))))) =
       stop_calls (calls st) @
         zip (rev (tasks (mgr st)))
             (fst (hooks_in_turn BeforeStop (rev (tasks (mgr st))) (lc_world (snd (StartAll st))))) \<and>
     lc_world (snd (StopAll (snd (StartAll st)))) =
       snd (hooks_in_turn BeforeStop (rev (tasks (mgr st))) (lc_world (snd (StartAll st))))"
    using run[of st1] s StartAll_loop_tasks[OF l] StartAll_loop_stop_calls[OF l] by simp
  have b: "map fst (stop_calls (calls (snd (StopAll (snd (StartAll st)))))) =
     map fst (stop_calls (calls st)) @ rev (tasks (mgr st))"
    using a[of st1] s StartAll_loop_tasks[OF l] StartAll_loop_stop_calls[OF l] by simp
  have c: "stops_of t (calls (snd (StopAll st))) =
     stops_of t (calls st) + count_list (tasks (mgr st)) t"
    using a[of st] by (simp add: stops_of_def)
  have d: "count_list (tasks (Register t (Register t m))) t = count_list (tasks m) t + 2"
    by (simp add: Register_def)
  from run[of st] r2 a[of st] b c d show ?thesis by simp
qed

theorem StopAll_sweeps_registry_witness:
  "map (Name \<circ> fst) (stop_calls (calls (snd (StopAll twice_registered_scenario)))) =
     [''task1'', ''task3'', ''task2'', ''task1''] \<and>
   lc_world (snd (StopAll twice_registered_scenario)) =
     [''stopped task1'', ''stopped task3'', ''stopped task2'', ''stopped task1''] \<and>
   fst (StartAll twice_registered_scenario) \<noteq> None \<and>
   map (Name \<circ> fst) (start_calls (calls (snd (StartAll twice_registered_scenario)))) =
     [''task1'', ''task2''] \<and>
   map (Name \<circ> fst) (stop_calls (calls (snd (StopAll (snd (StartAll twice_registered_scenario)))))) =
     [''task1'', ''task3'', ''task2'', ''task1''] \<and>
   lc_world (snd (StopAll (snd (StartAll twice_registered_scenario)))) =
     [''started task1'', ''started task2'',
      ''stopped task1'', ''stopped task3'', ''stopped task2'', ''stopped task1''] \<and>
   stops_of (mockTask ''task1'' None None) (calls (snd (StopAll twice_registered_scenario))) = 2"
  using StopAll_sweeps_registry[of twice_registered_scenario "mockTask ''task1'' None None"]
  by (simp add: twice_registered_scenario_def lc_defs stop_calls_def start_calls_def stops_of_def
      numeral_3_eq_3 eval_nat_numeral)

section \<open>Scheduler: facts about a tick and about the loop\<close>

lemma s_log_simps [simp]:
  "world (s_Info msg kv st) = world st" "effects (s_Info msg kv st) = effects st"
  "timers (sched (s_Info msg kv st)) = timers (sched st)"
  "metrics (sched (s_Info msg kv st)) = metrics (sched st)"
  "ctx (sched (s_Info msg kv st)) = ctx (sched st)"
  "wg (sched (s_Info msg kv st)) = wg (sched st)"
  "activeTimers (sched (s_Info msg kv st)) = activeTimers (sched st)"
  "log (sched (s_Info msg kv st)) = log (sched st) @ [LogEntry InfoLevel msg kv]"
  "world (s_Error msg kv st) = world st" "effects (s_Error msg kv st) = effects st"
  "timers (sched (s_Error msg kv st)) = timers (sched st)"
  "metrics (sched (s_Error msg kv st)) = metrics (sched st)"
  "ctx (sched (s_Error msg kv st)) = ctx (sched st)"
  "wg (sched (s_Error msg kv st)) = wg (sched st)"
  "activeTimers (sched (s_Error msg kv st)) = activeTimers (sched st)"
  "log (sched (s_Error msg kv st)) = log (sched st) @ [LogEntry ErrorLevel msg kv]"
  "world (s_Warn msg kv st) = world st" "effects (s_Warn msg kv st) = effects st"
  "timers (sched (s_Warn msg kv st)) = timers (sched st)"
  "metrics (sched (s_Warn msg kv st)) = metrics (sched st)"
  "ctx (sched (s_Warn msg kv st)) = ctx (sched st)"
  "wg (sched (s_Warn msg kv st)) = wg (sched st)"
  "activeTimers (sched (s_Warn msg kv st)) = activeTimers (sched st)"
  "log (sched (s_Warn msg kv st)) = log (sched st) @ [LogEntry WarnLevel msg kv]"
  by (simp_all add: s_Info_def s_Error_def s_Warn_def log_Info_def log_Error_def log_Warn_def)

lemma report_simps [simp]:
  "world (report c st) = world st" "effects (report c st) = effects st"
  "timers (sched (report c st)) = timers (sched st)"
  "log (sched (report c st)) = log (sched st)"
  "ctx (sched (report c st)) = ctx (sched st)"
  "wg (sched (report c st)) = wg (sched st)"
  "activeTimers (sched (report c st)) = activeTimers (sched st)"
  "metrics (sched (report c st)) = map_option (\<lambda>cs. cs @ [c]) (metrics (sched st))"
  by (simp_all add: report_def split: option.splits)

lemma perform_simps [simp]:
  "world (perform e st) = world st" "effects (perform e st) = effects st @ [e]"
  "sched (perform e st) = sched st"
  by (simp_all add: perform_def)

lemma executeTimerWithRecovery_Normal:
  "\<exists>t' st'. executeTimerWithRecovery nm t st = Normal (t', st')"
  by (simp add: executeTimerWithRecovery_def deferred_recover_def protected_body_def Let_def
      split: outcome.splits)

lemma tick_Normal: "\<exists>st'. tick nm st = Normal st'"
proof (cases "map_of (timers (sched st)) nm")
  case None
  then show ?thesis by (simp add: tick_def)
next
  case (Some t)
  from executeTimerWithRecovery_Normal[of nm t st] obtain t' st' where
    "executeTimerWithRecovery nm t st = Normal (t', st')" by blast
  with Some show ?thesis by (simp add: tick_def)
qed

lemma execute_crash:
  assumes inv: "\<not> (maxRestarts t > 0 \<and> sint (panicCount t) > maxRestarts t)"
      and crash: "handler t (world st) = Panics w'"
  shows "executeTimerWithRecovery nm t st =
     Normal (t\<lparr> panicCount := panicCount t + 1 \<rparr>,
             (if backoffSeconds t > 0 then perform (Sleep (backoffSeconds t)) else id)
               (report (RecordTimerPanic nm)
                 (s_Error ''Timer panic recovered'' [(''timer'', nm)]
                   ((perform (Invoke nm) (report (RecordTimerRun nm) st))\<lparr> world := w' \<rparr>))))"
  using inv crash
  by (auto simp: executeTimerWithRecovery_def deferred_recover_def protected_body_def Let_def)

lemma execute_return:
  assumes inv: "\<not> (maxRestarts t > 0 \<and> sint (panicCount t) > maxRestarts t)"
      and ret: "handler t (world st) = Returns w'"
  shows "executeTimerWithRecovery nm t st =
     Normal (t, (perform (Invoke nm) (report (RecordTimerRun nm) st))\<lparr> world := w' \<rparr>)"
  using inv ret
  by (auto simp: executeTimerWithRecovery_def deferred_recover_def protected_body_def Let_def)

lemma execute_skip:
  assumes "maxRestarts t > 0 \<and> sint (panicCount t) > maxRestarts t"
  shows "executeTimerWithRecovery nm t st =
     Normal (t, s_Error ''Timer exceeded max panic restarts, disabling'' [(''timer'', nm)] st)"
  using assms by (simp add: executeTimerWithRecovery_def)

lemma sint_succ_eq: "sint (x::32 word) < 2147483647 \<Longrightarrow> sint (x + 1) = sint x + 1"
proof -
  assume lt: "sint x < 2147483647"
  have b: "- (2 ^ 31) \<le> sint x" using sint_ge[of x] by simp
  have "sint (x + 1) = signed_take_bit 31 (sint x + 1)"
    by (simp add: sint_word_ariths)
  also have "\<dots> = sint x + 1"
    using b lt by (intro signed_take_bit_int_eq_self) simp_all
  finally show ?thesis .
qed

lemma invocations_simps [simp]:
  "invocations nm [] = 0"
  "invocations nm (e # es) = (if e = Invoke nm then 1 else 0) + invocations nm es"
  "invocations nm (es @ fs) = invocations nm es + invocations nm fs"
  by (simp_all add: invocations_def)

lemma handler_step_panicCount [simp]:
  "handler_step (t\<lparr> panicCount := c \<rparr>) = handler_step t"
  by (rule ext) (simp add: handler_step_def)

lemma handler_step_crash: "handler t w = Panics w' \<Longrightarrow> w' = handler_step t w"
  by (simp add: handler_step_def)

lemma tick_invoked_crash:
  assumes reg: "map_of (timers (sched st)) nm = Some t"
      and inv: "\<not> (maxRestarts t > 0 \<and> sint (panicCount t) > maxRestarts t)"
      and crash: "handler t (world st) = Panics w'"
  shows "\<exists>st'. tick nm st = Normal st' \<and>
           map_of (timers (sched st')) nm = Some (t\<lparr> panicCount := panicCount t + 1 \<rparr>) \<and>
           invocations nm (effects st') = invocations nm (effects st) + 1 \<and>
           world st' = w'"
  using reg execute_crash[OF inv crash, of nm]
  by (simp add: tick_def update_conv')

lemma tick_skipped:
  assumes reg: "map_of (timers (sched st)) nm = Some t"
      and skip: "maxRestarts t > 0 \<and> sint (panicCount t) > maxRestarts t"
  shows "\<exists>st'. tick nm st = Normal st' \<and>
           map_of (timers (sched st')) nm = Some t \<and>
           effects st' = effects st \<and> metrics (sched st') = metrics (sched st) \<and> world st' = world st"
  using reg execute_skip[OF skip, of nm st]
  by (simp add: tick_def update_conv')

lemma loop_unlimited:
  "map_of (timers (sched st)) nm = Some t \<Longrightarrow>
   \<forall>w. \<exists>w'. handler t w = Panics w' \<Longrightarrow>
   \<not> (0 < maxRestarts t \<and> maxRestarts t < 2147483647) \<Longrightarrow>
   \<exists>st'. runTimer_loop nm (replicate n Tick) st = Normal st' \<and>
         invocations nm (effects st') = invocations nm (effects st) + n \<and>
         world st' = (handler_step t ^^ n) (world st)"
proof (induction n arbitrary: st t)
  case 0
  then show ?case by simp
next
  case (Suc k)
  have "sint (panicCount t) < 2147483648" using sint_lt[of "panicCount t"] by simp
  with Suc.prems(3) have inv: "\<not> (maxRestarts t > 0 \<and> sint (panicCount t) > maxRestarts t)"
    by linarith
  from Suc.prems(2) obtain w' where crash: "handler t (world st) = Panics w'" by blast
  from tick_invoked_crash[OF Suc.prems(1) inv crash] obtain st1 where
    t1: "tick nm st = Normal st1"
    and r1: "map_of (timers (sched st1)) nm = Some (t\<lparr> panicCount := panicCount t + 1 \<rparr>)"
    and i1: "invocations nm (effects st1) = invocations nm (effects st) + 1"
    and w1: "world st1 = w'"
    by blast
  have h1: "\<forall>w. \<exists>w'. handler (t\<lparr> panicCount := panicCount t + 1 \<rparr>) w = Panics w'"
    using Suc.prems(2) by simp
  have b1: "\<not> (0 < maxRestarts (t\<lparr> panicCount := panicCount t + 1 \<rparr>) \<and>
              maxRestarts (t\<lparr> panicCount := panicCount t + 1 \<rparr>) < 2147483647)"
    using Suc.prems(3) by simp
  from Suc.IH[OF r1 h1 b1] obtain st' where
    "runTimer_loop nm (replicate k Tick) st1 = Normal st'"
    "invocations nm (effects st') = invocations nm (effects st1) + k"
    "world st' = (handler_step t ^^ k) (world st1)" by auto
  with t1 i1 w1 handler_step_crash[OF crash] show ?case by (simp add: funpow_swap1)
qed

lemma loop_suppressed:
  "map_of (timers (sched st)) nm = Some t \<Longrightarrow>
   \<forall>w. \<exists>w'. handler t w = Panics w' \<Longrightarrow>
   0 < maxRestarts t \<Longrightarrow> maxRestarts t < 2147483647 \<Longrightarrow>
   0 \<le> sint (panicCount t) \<Longrightarrow> sint (panicCount t) \<le> maxRestarts t + 1 \<Longrightarrow>
   \<exists>st'. runTimer_loop nm (replicate n Tick) st = Normal st' \<and>
         invocations nm (effects st') =
           invocations nm (effects st) + min n (nat (maxRestarts t + 1 - sint (panicCount t))) \<and>
         world st' =
           (handler_step t ^^ min n (nat (maxRestarts t + 1 - sint (panicCount t))))
             (world st)"
proof (induction n arbitrary: st t)
  case 0
  then show ?case by simp
next
  case (Suc k)
  show ?case
  proof (cases "sint (panicCount t) > maxRestarts t")
    case True
    with Suc.prems(3) have skip: "maxRestarts t > 0 \<and> sint (panicCount t) > maxRestarts t" by simp
    from tick_skipped[OF Suc.prems(1) skip] obtain st1 where
      t1: "tick nm st = Normal st1" and r1: "map_of (timers (sched st1)) nm = Some t"
      and e1: "effects st1 = effects st" and w1: "world st1 = world st" by blast
    from Suc.IH[OF r1 Suc.prems(2-6)] obtain st' where
      "runTimer_loop nm (replicate k Tick) st1 = Normal st'"
      "invocations nm (effects st') =
         invocations nm (effects st1) + min k (nat (maxRestarts t + 1 - sint (panicCount t)))"
      "world st' =
         (handler_step t ^^ min k (nat (maxRestarts t + 1 - sint (panicCount t))))
           (world st1)" by blast
    with t1 e1 w1 True Suc.prems(6) show ?thesis by simp
  next
    case False
    then have inv: "\<not> (maxRestarts t > 0 \<and> sint (panicCount t) > maxRestarts t)" by simp
    from Suc.prems(2) obtain w' where crash: "handler t (world st) = Panics w'" by blast
    from tick_invoked_crash[OF Suc.prems(1) inv crash] obtain st1 where
      t1: "tick nm st = Normal st1"
      and r1: "map_of (timers (sched st1)) nm = Some (t\<lparr> panicCount := panicCount t + 1 \<rparr>)"
      and i1: "invocations nm (effects st1) = invocations nm (effects st) + 1"
      and w1: "world st1 = w'"
      by blast
    let ?t1 = "t\<lparr> panicCount := panicCount t + 1 \<rparr>"
    have sx: "sint (panicCount t + 1) = sint (panicCount t) + 1"
      using False Suc.prems(4) by (intro sint_succ_eq) linarith
    have h1: "\<forall>w. \<exists>w'. handler ?t1 w = Panics w'" using Suc.prems(2) by simp
    have m1: "0 < maxRestarts ?t1" "maxRestarts ?t1 < 2147483647" using Suc.prems(3,4) by simp_all
    have p1: "0 \<le> sint (panicCount ?t1)" "sint (panicCount ?t1) \<le> maxRestarts ?t1 + 1"
      using sx False Suc.prems(5) by simp_all
    from Suc.IH[OF r1 h1 m1 p1] obtain st' where
      l: "runTimer_loop nm (replicate k Tick) st1 = Normal st'"
      and c: "invocations nm (effects st') =
         invocations nm (effects st1) + min k (nat (maxRestarts ?t1 + 1 - sint (panicCount ?t1)))"
      and w: "world st' =
         (handler_step ?t1 ^^
            min k (nat (maxRestarts ?t1 + 1 - sint (panicCount ?t1)))) (world st1)"
      by blast
    have m: "Suc (min k (nat (maxRestarts t + 1 - (sint (panicCount t) + 1))))
            = min (Suc k) (nat (maxRestarts t + 1 - sint (panicCount t)))"
      using False by (simp add: min_def) linarith
    have "world st' =
        (handler_step t ^^
           Suc (min k (nat (maxRestarts t + 1 - (sint (panicCount t) + 1))))) (world st)"
      using w w1 handler_step_crash[OF crash] sx by (simp add: funpow_swap1)
    with m have "world st' =
        (handler_step t ^^
           min (Suc k) (nat (maxRestarts t + 1 - sint (panicCount t)))) (world st)"
      by simp
    with l c t1 i1 sx m show ?thesis by simp
  qed
qed


lemma reported_after:
  "metrics (sched st') = map_option (\<lambda>cs. cs @ ds) (metrics (sched st)) \<Longrightarrow>
   reported c st' = reported c st + (if metrics (sched st) = None then 0 else count_list ds c)"
  by (cases "metrics (sched st)") (simp_all add: reported_def)

lemma spawn_ctx [simp]: "ctx (sched (spawn nm st)) = ctx (sched st)"
  by (simp add: spawn_def)

lemma fold_spawn_ctx [simp]: "ctx (sched (fold spawn nms st)) = ctx (sched st)"
  by (induction nms arbitrary: st) simp_all

lemma execute_ctx:
  "executeTimerWithRecovery nm t st = Normal (t', st') \<Longrightarrow>
     ctx (sched st') = ctx (sched st) \<and> timers (sched st') = timers (sched st)"
  by (auto simp: executeTimerWithRecovery_def deferred_recover_def protected_body_def Let_def
      split: if_splits outcome.splits)

lemma tick_ctx: "tick nm st = Normal st' \<Longrightarrow> ctx (sched st') = ctx (sched st)"
proof (cases "map_of (timers (sched st)) nm")
  case None
  assume "tick nm st = Normal st'"
  with None show ?thesis by (simp add: tick_def)
next
  case (Some t)
  assume a: "tick nm st = Normal st'"
  from executeTimerWithRecovery_Normal[of nm t st] obtain t1 st1 where
    e: "executeTimerWithRecovery nm t st = Normal (t1, st1)" by blast
  from a Some e have "st' = st1\<lparr> sched := (sched st1)\<lparr> timers := AList.update nm t1 (timers (sched st1)) \<rparr> \<rparr>"
    by (simp add: tick_def)
  with execute_ctx[OF e] show ?thesis by simp
qed

lemma runTimer_deferred_ctx [simp]: "ctx (sched (runTimer_deferred st)) = ctx (sched st)"
  by (simp add: runTimer_deferred_def Let_def)

lemma Start_ctx: "ctx (sched (snd (Start c st))) \<noteq> None"
  by (simp add: Start_def Let_def)

lemma Start_running:
  "ctx (sched st) \<noteq> None \<Longrightarrow> Start c st = (Some (Errorf ''scheduler already running'' None), st)"
  by (simp add: Start_def)

lemma Stop_ctx: "Stop sel st = Some (e, st') \<Longrightarrow> ctx (sched st') = ctx (sched st)"
  by (auto simp: Stop_def Let_def split: select_outcome.splits)

lemma AddTimer_ctx: "ctx (snd (AddTimer nm iv h s)) = ctx s"
  by (simp add: AddTimer_def Let_def)

lemma apply_op_running:
  assumes "ctx (sched st) \<noteq> None" and "apply_op x st = Some st'"
  shows "ctx (sched st') \<noteq> None"
proof (cases x)
  case (Op_AddTimer nm iv h)
  with assms show ?thesis by (auto simp: AddTimer_ctx)
next
  case (Op_Start c)
  with assms show ?thesis using Start_ctx[of c st] by auto
next
  case (Op_Stop sel)
  with assms obtain e where "Stop sel st = Some (e, st')" by auto
  from Stop_ctx[OF this] assms(1) show ?thesis by simp
next
  case (Op_signal nm sg)
  show ?thesis
  proof (cases sg)
    case Tick
    from tick_Normal[of nm st] obtain st1 where t: "tick nm st = Normal st1" by blast
    with Op_signal Tick assms(2) have "st' = st1" by simp
    with tick_ctx[OF t] assms(1) show ?thesis by simp
  next
    case Done
    with Op_signal assms show ?thesis by auto
  qed
qed

lemma apply_ops_running:
  "ctx (sched st) \<noteq> None \<Longrightarrow> apply_ops xs st = Some st' \<Longrightarrow> ctx (sched st') \<noteq> None"
proof (induction xs arbitrary: st)
  case Nil
  then show ?case by simp
next
  case (Cons x xs)
  from Cons.prems(2) obtain st1 where a: "apply_op x st = Some st1" and b: "apply_ops xs st1 = Some st'"
    by (auto split: option.splits)
  from Cons.IH[OF apply_op_running[OF Cons.prems(1) a] b] show ?case .
qed

lemma tick_metrics:
  assumes reg: "map_of (timers (sched st)) nm = Some t"
  shows "metrics (sched (state_of (tick nm st))) =
           map_option (\<lambda>cs. cs @
              (if maxRestarts t > 0 \<and> sint (panicCount t) > maxRestarts t then []
               else case handler t (world st) of
                      Returns w' \<Rightarrow> [RecordTimerRun nm]
                    | Panics w' \<Rightarrow> [RecordTimerRun nm, RecordTimerPanic nm]))
             (metrics (sched st))"
proof (cases "maxRestarts t > 0 \<and> sint (panicCount t) > maxRestarts t")
  case True
  from execute_skip[OF True, of nm st] reg True show ?thesis
    by (cases "metrics (sched st)") (simp_all add: tick_def)
next
  case False
  show ?thesis
  proof (cases "handler t (world st)")
    case (Returns w')
    from execute_return[OF False Returns, of nm] reg False Returns show ?thesis
      by (cases "metrics (sched st)") (simp_all add: tick_def)
  next
    case (Panics w')
    from execute_crash[OF False Panics, of nm] reg False Panics show ?thesis
      by (cases "metrics (sched st)") (simp_all add: tick_def)
  qed
qed

lemma tick_invocations:
  assumes reg: "map_of (timers (sched st)) nm = Some t"
  shows "invocations nm (effects (state_of (tick nm st))) =
           invocations nm (effects st) +
             (if maxRestarts t > 0 \<and> sint (panicCount t) > maxRestarts t then 0 else 1)"
proof (cases "maxRestarts t > 0 \<and> sint (panicCount t) > maxRestarts t")
  case True
  from execute_skip[OF True, of nm st] reg True show ?thesis
    by (simp add: tick_def)
next
  case False
  show ?thesis
  proof (cases "handler t (world st)")
    case (Returns w')
    from execute_return[OF False Returns, of nm] reg False show ?thesis
      by (simp add: tick_def)
  next
    case (Panics w')
    from execute_crash[OF False Panics, of nm] reg False show ?thesis
      by (simp add: tick_def)
  qed
qed

lemma tick_world:
  assumes reg: "map_of (timers (sched st)) nm = Some t"
  shows "world (state_of (tick nm st)) =
           (if maxRestarts t > 0 \<and> sint (panicCount t) > maxRestarts t then world st
            else handler_step t (world st))"
proof (cases "maxRestarts t > 0 \<and> sint (panicCount t) > maxRestarts t")
  case True
  from execute_skip[OF True, of nm st] reg True show ?thesis
    by (simp add: tick_def)
next
  case False
  show ?thesis
  proof (cases "handler t (world st)")
    case (Returns w')
    from execute_return[OF False Returns, of nm] reg False Returns show ?thesis
      by (auto simp: tick_def handler_step_def)
  next
    case (Panics w')
    from execute_crash[OF False Panics, of nm] reg False Panics show ?thesis
      by (auto simp: tick_def handler_step_def)
  qed
qed

lemmas sched_defs = panic_scenario_def add_timer_def test_sys_def scheduler_New_def AddTimer_def
  tick_def executeTimerWithRecovery_def deferred_recover_def protected_body_def report_def
  perform_def s_Error_def s_Info_def s_Warn_def log_Error_def log_Info_def log_Warn_def
  panic_handler_def count_handler_def panic_timer_def exhausted_scenario_def Let_def

text \<open>
  C1, with the metrics collaborator made explicit. When a timer's handler is invoked and panics, the tick returns normally
  (the panic does not leave \<open>executeTimerWithRecovery\<close>); the timer's \<open>panicCount\<close> is
  one more than before (as an \<open>int32\<close>) and nothing else of the timer changes; every
  other timer of the registry is as it was; the recovery is logged; the active-timer
  counter, the WaitGroup and the run context are untouched; and the timer's loop goes on
  with its next signal. The metrics collaborator, if there is one, receives the run call
  and then the panic call; if the Scheduler has none (\<open>s.metrics == nil\<close>), no metric is
  reported.
\<close>

theorem handler_crash_contained:
  assumes reg: "map_of (timers (sched st)) nm = Some t"
      and inv: "\<not> (maxRestarts t > 0 \<and> sint (panicCount t) > maxRestarts t)"
      and crash: "handler t (world st) = Panics w'"
  shows "\<exists>st'. tick nm st = Normal st' \<and>
           map_of (timers (sched st')) nm = Some (t\<lparr> panicCount := panicCount t + 1 \<rparr>) \<and>
           (\<forall>other. other \<noteq> nm \<longrightarrow>
              map_of (timers (sched st')) other = map_of (timers (sched st)) other) \<and>
           metrics (sched st') =
             map_option (\<lambda>cs. cs @ [RecordTimerRun nm, RecordTimerPanic nm]) (metrics (sched st)) \<and>
           log (sched st') =
             log (sched st) @ [LogEntry ErrorLevel ''Timer panic recovered'' [(''timer'', nm)]] \<and>
           activeTimers (sched st') = activeTimers (sched st) \<and>
           wg (sched st') = wg (sched st) \<and>
           ctx (sched st') = ctx (sched st) \<and>
           (\<forall>sigs. runTimer_loop nm (Tick # sigs) st = runTimer_loop nm sigs st')"
  using reg execute_crash[OF inv crash, of nm]
  by (cases "metrics (sched st)") (simp_all add: tick_def update_conv')

theorem handler_crash_contained_witness:
  "map_of (timers (sched (panic_scenario (Some []) 2))) ''panic-timer'' = Some (panic_timer 2) \<and>
   \<not> (maxRestarts (panic_timer 2) > 0 \<and>
      sint (panicCount (panic_timer 2)) > maxRestarts (panic_timer 2)) \<and>
   handler (panic_timer 2) (world (panic_scenario (Some []) 2)) = Panics 1 \<and>
   map_option panicCount
     (map_of (timers (sched (state_of (tick ''panic-timer'' (panic_scenario (Some []) 2)))))
        ''panic-timer'') = Some 1 \<and>
   map_of (timers (sched (state_of (tick ''panic-timer'' (panic_scenario (Some []) 2)))))
        ''exec-timer'' =
     map_of (timers (sched (panic_scenario (Some []) 2))) ''exec-timer'' \<and>
   metrics (sched (state_of (tick ''panic-timer'' (panic_scenario (Some []) 2)))) =
     Some [RecordTimerRun ''panic-timer'', RecordTimerPanic ''panic-timer'']"
proof -
  have h1: "map_of (timers (sched (panic_scenario (Some []) 2))) ''panic-timer'' = Some (panic_timer 2)"
    by (simp add: sched_defs)
  have h2: "\<not> (maxRestarts (panic_timer 2) > 0 \<and>
      sint (panicCount (panic_timer 2)) > maxRestarts (panic_timer 2))"
    by (simp add: sched_defs)
  have h3: "handler (panic_timer 2) (world (panic_scenario (Some []) 2)) = Panics 1"
    by (simp add: sched_defs)
  have h4: "metrics (sched (panic_scenario (Some []) 2)) = Some []"
    by (simp add: sched_defs)
  from handler_crash_contained[OF h1 h2 h3] h1 h2 h3 h4 show ?thesis
    by (auto simp: panic_timer_def)
qed

theorem crash_metric_without_collaborator:
  "map_of (timers (sched (panic_scenario None 2))) ''panic-timer'' = Some (panic_timer 2) \<and>
   handler (panic_timer 2) (world (panic_scenario None 2)) = Panics 1 \<and>
   map_option panicCount
     (map_of (timers (sched (state_of (tick ''panic-timer'' (panic_scenario None 2)))))
        ''panic-timer'') = Some 1 \<and>
   metrics (sched (state_of (tick ''panic-timer'' (panic_scenario None 2)))) = None \<and>
   reported (RecordTimerPanic ''panic-timer'')
     (state_of (tick ''panic-timer'' (panic_scenario None 2))) = 0"
  by (simp add: sched_defs reported_def)

text \<open>
  C2. A tick leaves the handler out exactly when \<open>maxRestarts > 0\<close> and \<open>panicCount\<close>
  is greater than \<open>maxRestarts\<close>: then the world is as it was, and otherwise it is what
  one run of the handler makes of it. For a timer that starts with \<open>panicCount = 0\<close>
  and whose handler panics whenever it is invoked, \<open>n\<close> ticks run the handler \<open>n\<close>
  times as long as \<open>n \<le> maxRestarts + 1\<close>; the number of runs stays at
  \<open>maxRestarts + 1\<close> for good from then on when \<open>0 < maxRestarts\<close> (and
  \<open>maxRestarts\<close> is below the largest \<open>int32\<close>, which \<open>panicCount\<close> cannot exceed);
  and when \<open>maxRestarts = 0\<close> every tick runs the handler. The runs are counted twice:
  by the invocations noted, and by the world, which is the handler applied that many
  times, each run starting on what the one before it left.
\<close>

theorem always_crashing_timer_runs:
  assumes reg: "map_of (timers (sched st)) nm = Some t"
  shows "((invocations nm (effects (state_of (tick nm st))) = invocations nm (effects st)) =
            (maxRestarts t > 0 \<and> sint (panicCount t) > maxRestarts t)) \<and>
         world (state_of (tick nm st)) =
            (if maxRestarts t > 0 \<and> sint (panicCount t) > maxRestarts t then world st
             else handler_step t (world st)) \<and>
         ((\<forall>w. \<exists>w'. handler t w = Panics w') \<and> panicCount t = 0 \<longrightarrow>
            runTimer_loop nm (replicate n Tick) st =
              Normal (state_of (runTimer_loop nm (replicate n Tick) st)) \<and>
            invocations nm (effects (state_of (runTimer_loop nm (replicate n Tick) st))) =
              invocations nm (effects st) +
                (if 0 < maxRestarts t \<and> maxRestarts t < 2147483647
                 then min n (nat (maxRestarts t) + 1) else n) \<and>
            world (state_of (runTimer_loop nm (replicate n Tick) st)) =
              (handler_step t ^^
                 (if 0 < maxRestarts t \<and> maxRestarts t < 2147483647
                  then min n (nat (maxRestarts t) + 1) else n)) (world st) \<and>
            (n \<le> nat (maxRestarts t) + 1 \<longrightarrow>
               invocations nm (effects (state_of (runTimer_loop nm (replicate n Tick) st))) =
                 invocations nm (effects st) + n \<and>
               world (state_of (runTimer_loop nm (replicate n Tick) st)) =
                 (handler_step t ^^ n) (world st)))"
proof -
  have a: "(invocations nm (effects (state_of (tick nm st))) = invocations nm (effects st)) =
            (maxRestarts t > 0 \<and> sint (panicCount t) > maxRestarts t)"
    using tick_invocations[OF reg] by auto
  have b: "runTimer_loop nm (replicate n Tick) st =
              Normal (state_of (runTimer_loop nm (replicate n Tick) st)) \<and>
            invocations nm (effects (state_of (runTimer_loop nm (replicate n Tick) st))) =
              invocations nm (effects st) +
                (if 0 < maxRestarts t \<and> maxRestarts t < 2147483647
                 then min n (nat (maxRestarts t) + 1) else n) \<and>
            world (state_of (runTimer_loop nm (replicate n Tick) st)) =
              (handler_step t ^^
                 (if 0 < maxRestarts t \<and> maxRestarts t < 2147483647
                  then min n (nat (maxRestarts t) + 1) else n)) (world st) \<and>
            (n \<le> nat (maxRestarts t) + 1 \<longrightarrow>
               invocations nm (effects (state_of (runTimer_loop nm (replicate n Tick) st))) =
                 invocations nm (effects st) + n \<and>
               world (state_of (runTimer_loop nm (replicate n Tick) st)) =
                 (handler_step t ^^ n) (world st))"
    if crash: "\<forall>w. \<exists>w'. handler t w = Panics w'" and fresh: "panicCount t = 0"
  proof (cases "0 < maxRestarts t \<and> maxRestarts t < 2147483647")
    case True
    have p: "0 \<le> sint (panicCount t)" "sint (panicCount t) \<le> maxRestarts t + 1"
      using fresh True by simp_all
    from loop_suppressed[OF reg crash _ _ p, of n] True obtain st' where
      l: "runTimer_loop nm (replicate n Tick) st = Normal st'"
      and c: "invocations nm (effects st') =
           invocations nm (effects st) + min n (nat (maxRestarts t + 1 - sint (panicCount t)))"
      and w: "world st' =
           (handler_step t ^^ min n (nat (maxRestarts t + 1 - sint (panicCount t)))) (world st)"
      by blast
    have "nat (maxRestarts t + 1 - sint (panicCount t)) = nat (maxRestarts t) + 1"
      using fresh True by (simp add: nat_add_distrib)
    with l c w True show ?thesis by simp
  next
    case False
    from loop_unlimited[OF reg crash False, of n] obtain st' where
      "runTimer_loop nm (replicate n Tick) st = Normal st'"
      "invocations nm (effects st') = invocations nm (effects st) + n"
      "world st' = (handler_step t ^^ n) (world st)" by blast
    with False show ?thesis by auto
  qed
  from a tick_world[OF reg] b show ?thesis by blast
qed

theorem always_crashing_timer_runs_witness:
  "map_of (timers (sched (panic_scenario (Some []) 2))) ''panic-timer'' = Some (panic_timer 2) \<and>
   (\<forall>w. \<exists>w'. handler (panic_timer 2) w = Panics w') \<and>
   panicCount (panic_timer 2) = 0 \<and>
   (3::nat) \<le> nat (maxRestarts (panic_timer 2)) + 1 \<and>
   world (panic_scenario (Some []) 2) = 0 \<and>
   invocations ''panic-timer''
     (effects (state_of (runTimer_loop ''panic-timer'' (replicate 3 Tick) (panic_scenario (Some []) 2)))) = 3 \<and>
   world (state_of (runTimer_loop ''panic-timer'' (replicate 3 Tick) (panic_scenario (Some []) 2))) = 3 \<and>
   invocations ''panic-timer''
     (effects (state_of (runTimer_loop ''panic-timer'' (replicate 5 Tick) (panic_scenario (Some []) 2)))) = 3 \<and>
   world (state_of (runTimer_loop ''panic-timer'' (replicate 5 Tick) (panic_scenario (Some []) 2))) = 3 \<and>
   invocations ''panic-timer''
     (effects (state_of (runTimer_loop ''panic-timer'' (replicate 5 Tick) (panic_scenario (Some []) 0)))) = 5 \<and>
   world (state_of (runTimer_loop ''panic-timer'' (replicate 5 Tick) (panic_scenario (Some []) 0))) = 5 \<and>
   world (state_of (tick ''panic-timer'' (panic_scenario (Some []) 2))) = 1 \<and>
   invocations ''panic-timer'' (effects (state_of (tick ''panic-timer'' exhausted_scenario))) =
     invocations ''panic-timer'' (effects exhausted_scenario) \<and>
   world (state_of (tick ''panic-timer'' exhausted_scenario)) = world exhausted_scenario"
proof -
  have h1: "map_of (timers (sched (panic_scenario (Some []) mr))) ''panic-timer'' = Some (panic_timer mr)"
    for mr by (simp add: sched_defs)
  have h2: "\<forall>w. \<exists>w'. handler (panic_timer mr) w = Panics w'" for mr
    by (simp add: sched_defs)
  have h3: "panicCount (panic_timer mr) = 0" for mr by (simp add: sched_defs)
  have h4: "map_of (timers (sched exhausted_scenario)) ''panic-timer'' =
      Some \<lparr> name = ''panic-timer'', interval = 50000000, handler = panic_handler,
             panicCount = 3, maxRestarts = 2, backoffSeconds = 0, running = 0 \<rparr>"
    by (simp add: sched_defs)
  have w0: "world (panic_scenario (Some []) mr) = 0"
    "invocations ''panic-timer'' (effects (panic_scenario (Some []) mr)) = 0" for mr
    by (simp_all add: sched_defs)
  have m: "maxRestarts (panic_timer mr) = mr" for mr by (simp add: panic_timer_def)
  have s: "(handler_step (panic_timer mr) ^^ k) w = w + k" for mr k w
    by (induction k) (simp_all add: handler_step_def panic_timer_def panic_handler_def)
  have s1: "handler_step (panic_timer mr) w = Suc w" for mr w
    by (simp add: handler_step_def panic_timer_def panic_handler_def)
  note a = always_crashing_timer_runs[OF h1, of 2 3] always_crashing_timer_runs[OF h1, of 2 5]
    always_crashing_timer_runs[OF h1, of 0 5]
  from always_crashing_timer_runs[OF h4, of 0]
  have x: "invocations ''panic-timer'' (effects (state_of (tick ''panic-timer'' exhausted_scenario))) =
       invocations ''panic-timer'' (effects exhausted_scenario) \<and>
     world (state_of (tick ''panic-timer'' exhausted_scenario)) = world exhausted_scenario"
    by simp
  from a h2 h3 have y: "invocations ''panic-timer''
     (effects (state_of (runTimer_loop ''panic-timer'' (replicate 3 Tick) (panic_scenario (Some []) 2)))) = 3 \<and>
   world (state_of (runTimer_loop ''panic-timer'' (replicate 3 Tick) (panic_scenario (Some []) 2))) = 3 \<and>
   invocations ''panic-timer''
     (effects (state_of (runTimer_loop ''panic-timer'' (replicate 5 Tick) (panic_scenario (Some []) 2)))) = 3 \<and>
   world (state_of (runTimer_loop ''panic-timer'' (replicate 5 Tick) (panic_scenario (Some []) 2))) = 3 \<and>
   invocations ''panic-timer''
     (effects (state_of (runTimer_loop ''panic-timer'' (replicate 5 Tick) (panic_scenario (Some []) 0)))) = 5 \<and>
   world (state_of (runTimer_loop ''panic-timer'' (replicate 5 Tick) (panic_scenario (Some []) 0))) = 5 \<and>
   world (state_of (tick ''panic-timer'' (panic_scenario (Some []) 2))) = 1"
    by (simp add: w0 m s s1)
  have z: "(3::nat) \<le> nat (maxRestarts (panic_timer 2)) + 1" by (simp add: m)
  from x y z h1[of 2] h2[of 2] h3[of 2] w0(1)[of 2] show ?thesis by blast
qed

text \<open>
  C5. A Start on a Scheduler whose run context is already set returns the
  already-running error and leaves the whole state as it was: the timer registry, the
  active-timer counter and the run context are unchanged, and no goroutine is started.
\<close>

theorem Start_while_running:
  assumes "ctx (sched st) \<noteq> None"
  shows "Start c st = (Some (Errorf ''scheduler already running'' None), st) \<and>
         timers (sched (snd (Start c st))) = timers (sched st) \<and>
         activeTimers (sched (snd (Start c st))) = activeTimers (sched st) \<and>
         ctx (sched (snd (Start c st))) = ctx (sched st) \<and>
         effects (snd (Start c st)) = effects st"
  using assms by (simp add: Start_def)

theorem Start_while_running_witness:
  "ctx (sched running_scenario) = Some (WithCancel Background) \<and>
   effects running_scenario = [Go_runTimer ''panic-timer'', Go_runTimer ''exec-timer''] \<and>
   activeTimers (sched running_scenario) = 2 \<and>
   Start Background running_scenario =
     (Some (Errorf ''scheduler already running'' None), running_scenario) \<and>
   effects (snd (Start Background running_scenario)) =
     [Go_runTimer ''panic-timer'', Go_runTimer ''exec-timer''] \<and>
   activeTimers (sched (snd (Start Background running_scenario))) = 2"
proof -
  have h: "ctx (sched running_scenario) \<noteq> None"
    by (simp add: running_scenario_def Start_ctx)
  have e: "ctx (sched running_scenario) = Some (WithCancel Background) \<and>
     effects running_scenario = [Go_runTimer ''panic-timer'', Go_runTimer ''exec-timer''] \<and>
     activeTimers (sched running_scenario) = 2"
    by (simp add: running_scenario_def Start_def spawn_def sched_defs)
  from Start_while_running[OF h, of Background] e show ?thesis by simp
qed

text \<open>
  C6. \<open>AddTimer\<close> with a name that is already in the registry returns the
  duplicate-name error and gives back the Scheduler unchanged, so the existing timer and
  \<open>GetTimerCount\<close> are as before. After any call of \<open>AddTimer\<close> the name is
  registered; hence on a new Scheduler a second \<open>AddTimer\<close> with the same name, whatever
  its interval and handler, fails and leaves the count at 1.
\<close>

theorem AddTimer_duplicate:
  "(map_of (timers s) nm \<noteq> None \<longrightarrow>
      AddTimer nm iv h s = (Some (Errorf (''timer '' @ nm @ '' already exists'') None), s) \<and>
      GetTimerCount (snd (AddTimer nm iv h s)) = GetTimerCount s) \<and>
   map_of (timers (snd (AddTimer nm iv h s))) nm \<noteq> None \<and>
   AddTimer nm iv' h' (snd (AddTimer nm iv h (scheduler_New lg ms mr bo))) =
     (Some (Errorf (''timer '' @ nm @ '' already exists'') None),
      snd (AddTimer nm iv h (scheduler_New lg ms mr bo))) \<and>
   GetTimerCount (snd (AddTimer nm iv h (scheduler_New lg ms mr bo))) = 1 \<and>
   GetTimerCount (snd (AddTimer nm iv' h' (snd (AddTimer nm iv h (scheduler_New lg ms mr bo))))) = 1"
  by (simp add: AddTimer_def scheduler_New_def GetTimerCount_def Let_def map_of_eq_None_iff)

theorem AddTimer_duplicate_witness:
  "map_of (timers duplicate_scenario) ''duplicate'' \<noteq> None \<and>
   AddTimer ''duplicate'' 1000000000 count_handler duplicate_scenario =
     (Some (Errorf ''timer duplicate already exists'' None), duplicate_scenario) \<and>
   GetTimerCount duplicate_scenario = 1 \<and>
   GetTimerCount (snd (AddTimer ''duplicate'' 1000000000 count_handler duplicate_scenario)) = 1"
proof -
  have h: "map_of (timers duplicate_scenario) ''duplicate'' \<noteq> None"
    by (simp add: duplicate_scenario_def sched_defs)
  have c: "GetTimerCount duplicate_scenario = 1"
    by (simp add: duplicate_scenario_def GetTimerCount_def sched_defs)
  from AddTimer_duplicate[of duplicate_scenario "''duplicate''" 1000000000 count_handler] h c
  show ?thesis by simp
qed

text \<open>
  C7. \<open>Stop\<close> returns a nil error on both of its ways out: when the timer loops have
  drained, which it logs at level Info, and when the shutdown context is done first,
  which it logs as a warning and does not return as an error.
\<close>

theorem Stop_returns_nil:
  "map_option fst (Stop Drained st) = Some None \<and>
   map_option fst (Stop Expired st) = Some None \<and>
   map_option (\<lambda>r. log (sched (snd r))) (Stop Drained st) =
     Some (log (sched st) @ [LogEntry InfoLevel ''Stopping scheduler...'' [],
                             LogEntry InfoLevel ''All timers stopped gracefully'' []]) \<and>
   map_option (\<lambda>r. log (sched (snd r))) (Stop Expired st) =
     Some (log (sched st) @ [LogEntry InfoLevel ''Stopping scheduler...'' [],
                             LogEntry WarnLevel ''Timeout waiting for timers to stop'' []])"
  by (simp add: Stop_def Let_def)

theorem Stop_returns_nil_witness:
  "map_option fst (Stop Drained running_scenario) = Some None \<and>
   map_option fst (Stop Expired running_scenario) = Some None \<and>
   map_option (\<lambda>r. effects (snd r)) (Stop Expired running_scenario) =
     Some [Go_runTimer ''panic-timer'', Go_runTimer ''exec-timer'', Cancel] \<and>
   map_option (\<lambda>r. last (log (sched (snd r)))) (Stop Expired running_scenario) =
     Some (LogEntry WarnLevel ''Timeout waiting for timers to stop'' [])"
  using Stop_returns_nil[of running_scenario]
  by (simp add: Stop_def running_scenario_def Start_def spawn_def sched_defs)

text \<open>
  C8, for every invocation rather than every normal return. On a tick of a registered timer the run metric is reported once
  exactly when the handler is invoked (the tick is not skipped) and the Scheduler has a
  metrics collaborator; this does not depend on whether the handler returns or panics. A skipped tick reports no run metric and invokes no
  handler.
\<close>

theorem run_metric_per_invocation:
  assumes reg: "map_of (timers (sched st)) nm = Some t"
  shows "tick nm st = Normal (state_of (tick nm st)) \<and>
         reported (RecordTimerRun nm) (state_of (tick nm st)) =
           reported (RecordTimerRun nm) st +
             (if metrics (sched st) \<noteq> None \<and>
                 \<not> (maxRestarts t > 0 \<and> sint (panicCount t) > maxRestarts t)
              then 1 else 0) \<and>
         invocations nm (effects (state_of (tick nm st))) =
           invocations nm (effects st) +
             (if maxRestarts t > 0 \<and> sint (panicCount t) > maxRestarts t then 0 else 1)"
proof -
  from tick_Normal[of nm st] have a: "tick nm st = Normal (state_of (tick nm st))" by auto
  have b: "reported (RecordTimerRun nm) (state_of (tick nm st)) =
           reported (RecordTimerRun nm) st +
             (if metrics (sched st) \<noteq> None \<and>
                 \<not> (maxRestarts t > 0 \<and> sint (panicCount t) > maxRestarts t)
              then 1 else 0)"
    using reported_after[OF tick_metrics[OF reg], of "RecordTimerRun nm"]
    by (simp split: outcome.splits)
  from a b tick_invocations[OF reg] show ?thesis by blast
qed

theorem run_metric_per_invocation_witness:
  "map_of (timers (sched (panic_scenario (Some []) 2))) ''exec-timer'' =
     Some \<lparr> name = ''exec-timer'', interval = 50000000, handler = count_handler,
            panicCount = 0, maxRestarts = 2, backoffSeconds = 0, running = 0 \<rparr> \<and>
   count_handler (world (panic_scenario (Some []) 2)) = Returns 1 \<and>
   reported (RecordTimerRun ''exec-timer'')
     (state_of (tick ''exec-timer'' (panic_scenario (Some []) 2))) = 1 \<and>
   invocations ''exec-timer''
     (effects (state_of (tick ''exec-timer'' (panic_scenario (Some []) 2)))) = 1 \<and>
   reported (RecordTimerRun ''panic-timer'')
     (state_of (tick ''panic-timer'' exhausted_scenario)) = 0 \<and>
   invocations ''panic-timer''
     (effects (state_of (tick ''panic-timer'' exhausted_scenario))) = 0"
proof -
  have h1: "map_of (timers (sched (panic_scenario (Some []) 2))) ''exec-timer'' =
     Some \<lparr> name = ''exec-timer'', interval = 50000000, handler = count_handler,
            panicCount = 0, maxRestarts = 2, backoffSeconds = 0, running = 0 \<rparr>"
    by (simp add: sched_defs)
  have h2: "map_of (timers (sched exhausted_scenario)) ''panic-timer'' =
      Some \<lparr> name = ''panic-timer'', interval = 50000000, handler = panic_handler,
             panicCount = 3, maxRestarts = 2, backoffSeconds = 0, running = 0 \<rparr>"
    by (simp add: sched_defs)
  have i: "reported (RecordTimerRun ''exec-timer'') (panic_scenario (Some []) 2) = 0"
    "invocations ''exec-timer'' (effects (panic_scenario (Some []) 2)) = 0"
    "metrics (sched (panic_scenario (Some []) 2)) = Some []"
    "reported (RecordTimerRun ''panic-timer'') exhausted_scenario = 0"
    "invocations ''panic-timer'' (effects exhausted_scenario) = 0"
    "count_handler (world (panic_scenario (Some []) 2)) = Returns 1"
    by (simp_all add: sched_defs reported_def)
  from run_metric_per_invocation[OF h1] run_metric_per_invocation[OF h2] h1 i
  show ?thesis by simp
qed

theorem run_metric_reported_for_crash:
  "map_of (timers (sched (panic_scenario (Some []) 2))) ''panic-timer'' = Some (panic_timer 2) \<and>
   handler (panic_timer 2) (world (panic_scenario (Some []) 2)) = Panics 1 \<and>
   reported (RecordTimerRun ''panic-timer'') (panic_scenario (Some []) 2) = 0 \<and>
   metrics (sched (state_of (tick ''panic-timer'' (panic_scenario (Some []) 2)))) =
     Some [RecordTimerRun ''panic-timer'', RecordTimerPanic ''panic-timer''] \<and>
   reported (RecordTimerRun ''panic-timer'')
     (state_of (tick ''panic-timer'' (panic_scenario (Some []) 2))) = 1"
  by (simp add: sched_defs reported_def)

text \<open>
  C9. Once a Start has succeeded, every later Start fails with the already-running
  error, whatever was called in between: \<open>AddTimer\<close>, further Starts, Stops that
  returned, ticks and cancellations received by the timer loops. Start sets the run
  context and nothing, \<open>Stop\<close> included, sets it back to nil.
\<close>

theorem Scheduler_single_use:
  assumes "Start c st = (None, st1)" and "apply_ops xs st1 = Some st2"
  shows "Start c' st2 = (Some (Errorf ''scheduler already running'' None), st2)"
proof -
  have "ctx (sched st1) \<noteq> None" using Start_ctx[of c st] assms(1) by simp
  from apply_ops_running[OF this assms(2)] show ?thesis by (rule Start_running)
qed

theorem Scheduler_single_use_witness:
  "Start Background idle_scenario = (None, snd (Start Background idle_scenario)) \<and>
   apply_ops [Op_Stop Drained] (snd (Start Background idle_scenario)) =
     Some (after_ops [Op_Stop Drained] (snd (Start Background idle_scenario))) \<and>
   Start Background (after_ops [Op_Stop Drained] (snd (Start Background idle_scenario))) =
     (Some (Errorf ''scheduler already running'' None),
      after_ops [Op_Stop Drained] (snd (Start Background idle_scenario)))"
proof -
  have h1: "Start Background idle_scenario = (None, snd (Start Background idle_scenario))"
    by (simp add: idle_scenario_def Start_def sched_defs)
  have h2: "apply_ops [Op_Stop Drained] (snd (Start Background idle_scenario)) =
     Some (after_ops [Op_Stop Drained] (snd (Start Background idle_scenario)))"
    by (simp add: after_ops_def Stop_def Let_def)
  from Scheduler_single_use[OF h1 h2, of Background] h1 h2 show ?thesis by simp
qed

end
